theory Spec2Isabelle
  imports Main
begin

section \<open>Values and exceptions of the script\<close>

text \<open>
  The script \<^verbatim>\<open>Scripts/generate_embeddings_basic.py\<close> reads JSON files, so the values it
  handles are what \<^verbatim>\<open>json.load\<close> returns: \<^verbatim>\<open>None\<close>, booleans, integers, strings, lists
  and dictionaries. A dictionary is an association list in insertion order; a character of a
  \<open>string\<close> stands for one character of a Python \<^verbatim>\<open>str\<close>. Numbers with a fraction or an
  exponent (Python floats) are not covered by this model.
\<close>

datatype json =
    JNull
  | JBool bool
  | JInt int
  | JStr string
  | JArr "json list"
  | JObj "(string \<times> json) list"

text \<open>The exceptions that the statements of the script can raise.\<close>

datatype error =
    KeyError string
  | TypeError
  | AttributeError
  | OverflowError
  | BindingError
  | IntegrityError string
  | OperationalError string

text \<open>Sequencing of steps that may raise: the first exception ends the sequence.\<close>

definition then_e :: "'e + 'a \<Rightarrow> ('a \<Rightarrow> 'e + 'b) \<Rightarrow> 'e + 'b" where
  "then_e r f = (case r of Inl e \<Rightarrow> Inl e | Inr x \<Rightarrow> f x)"

text \<open>\<^verbatim>\<open>d.get(k, default)\<close> on a dictionary.\<close>

definition dict_get :: "(string \<times> json) list \<Rightarrow> string \<Rightarrow> json \<Rightarrow> json" where
  "dict_get d k dflt = (case map_of d k of None \<Rightarrow> dflt | Some v \<Rightarrow> v)"

text \<open>\<^verbatim>\<open>d[k] = v\<close>: an existing key keeps its place, a new key goes to the end.\<close>

fun dict_set :: "string \<Rightarrow> json \<Rightarrow> (string \<times> json) list \<Rightarrow> (string \<times> json) list" where
  "dict_set k v [] = [(k, v)]"
| "dict_set k v ((k', v') # d) = (if k' = k then (k, v) # d else (k', v') # dict_set k v d)"

text \<open>\<^verbatim>\<open>x[k]\<close> with a string key: a \<^verbatim>\<open>KeyError\<close> on a dictionary without the key, a
  \<^verbatim>\<open>TypeError\<close> on every value that is not a dictionary.\<close>

definition subscript :: "json \<Rightarrow> string \<Rightarrow> error + json" where
  "subscript x k =
     (case x of
        JObj d \<Rightarrow> (case map_of d k of None \<Rightarrow> Inl (KeyError k) | Some v \<Rightarrow> Inr v)
      | _ \<Rightarrow> Inl TypeError)"

text \<open>What a \<^verbatim>\<open>for\<close> loop (or \<^verbatim>\<open>str.join\<close>) iterates over: the elements of a list, the keys of
  a dictionary, the characters of a string; every other value is not iterable.\<close>

fun py_iter :: "json \<Rightarrow> error + json list" where
  "py_iter (JArr xs) = Inr xs"
| "py_iter (JObj d) = Inr (map (\<lambda>kv. JStr (fst kv)) d)"
| "py_iter (JStr s) = Inr (map (\<lambda>c. JStr [c]) s)"
| "py_iter JNull = Inl TypeError"
| "py_iter (JBool b) = Inl TypeError"
| "py_iter (JInt n) = Inl TypeError"

text \<open>\<^verbatim>\<open>sep.join(x)\<close>: every item of \<open>x\<close> must be a string.\<close>

fun join :: "string \<Rightarrow> string list \<Rightarrow> string" where
  "join sep [] = []"
| "join sep [x] = x"
| "join sep (x # y # ys) = x @ sep @ join sep (y # ys)"

fun the_strs :: "json list \<Rightarrow> error + string list" where
  "the_strs [] = Inr []"
| "the_strs (JStr s # xs) = then_e (the_strs xs) (\<lambda>ss. Inr (s # ss))"
| "the_strs (x # xs) = Inl TypeError"

definition str_join :: "string \<Rightarrow> json \<Rightarrow> error + string" where
  "str_join sep x =
     then_e (py_iter x) (\<lambda>items. then_e (the_strs items) (\<lambda>ss. Inr (join sep ss)))"

text \<open>\<^verbatim>\<open>str(n)\<close> for a natural number and for an integer: the decimal digits.\<close>

definition digit_char :: "nat \<Rightarrow> char" where
  "digit_char d = ''0123456789'' ! d"

function str_nat :: "nat \<Rightarrow> string" where
  "str_nat n = (if n < 10 then [digit_char n] else str_nat (n div 10) @ [digit_char (n mod 10)])"
  by pat_completeness auto
termination
  by (relation "measure (\<lambda>n. n)") auto

declare str_nat.simps [simp del]

definition str_int :: "int \<Rightarrow> string" where
  "str_int i = (if i < 0 then CHR ''-'' # str_nat (nat (- i)) else str_nat (nat i))"


section \<open>The loader\<close>

text \<open>
  The knowledge directory is the list of its entries in the order the file system enumerates
  them. An entry is a name and what \<^verbatim>\<open>open\<close> followed by \<^verbatim>\<open>json.load\<close> does on it: the read
  fails (no permission, a directory, bytes that are not UTF-8), the text is not JSON, or the
  parsed value.
\<close>

datatype file_contents = Unreadable | Malformed | Parsed json

type_synonym directory = "(string \<times> file_contents) list"

text \<open>What the loader prints, line by line, with the formatted values kept as they are.\<close>

datatype event =
    Warning_no_json_files
  | Loading string
  | Loaded nat json
  | Error_loading string

text \<open>\<^verbatim>\<open>knowledge_dir.glob("*.json")\<close>: the entries whose name ends in \<^verbatim>\<open>.json\<close>.\<close>

definition is_json_name :: "string \<Rightarrow> bool" where
  "is_json_name n = (5 \<le> length n \<and> drop (length n - 5) n = ''.json'')"

definition glob_json :: "directory \<Rightarrow> directory" where
  "glob_json dir = filter (\<lambda>entry. is_json_name (fst entry)) dir"

text \<open>
  The inner loop, lines 30 to 32: each scenario gets the category of its file and is appended
  to \<^verbatim>\<open>all_scenarios\<close>. The assignment \<^verbatim>\<open>scenario['category'] = category\<close> raises a
  \<^verbatim>\<open>TypeError\<close> on an item that is not a dictionary; the scenarios appended before it stay in
  \<^verbatim>\<open>all_scenarios\<close>. The result is the scenarios appended and the exception, if any.
\<close>

fun tag_scenarios :: "json \<Rightarrow> json list \<Rightarrow> json list \<times> error option" where
  "tag_scenarios category [] = ([], None)"
| "tag_scenarios category (JObj d # rest) =
     (case tag_scenarios category rest of
        (appended, exc) \<Rightarrow> (JObj (dict_set ''category'' category d) # appended, exc))"
| "tag_scenarios category (x # rest) = ([], Some TypeError)"

text \<open>
  The body of the outer loop, lines 23 to 37, for one file: the scenarios it appends to
  \<^verbatim>\<open>all_scenarios\<close> and the lines it prints. \<^verbatim>\<open>data.get\<close> raises an \<^verbatim>\<open>AttributeError\<close> when
  the parsed value is not a dictionary. Every exception is caught by the
  \<^verbatim>\<open>except Exception\<close> clause, which prints the error line and continues.
\<close>

definition load_file :: "string \<times> file_contents \<Rightarrow> json list \<times> event list" where
  "load_file entry =
     (case snd entry of
        Parsed (JObj data) \<Rightarrow>
          (let category = dict_get data ''category'' (JStr ''unknown'');
               scenarios = dict_get data ''scenarios'' (JArr [])
           in case py_iter scenarios of
                Inl e \<Rightarrow> ([], [Loading (fst entry), Error_loading (fst entry)])
              | Inr items \<Rightarrow>
                  (case tag_scenarios category items of
                     (appended, None) \<Rightarrow>
                       (appended, [Loading (fst entry), Loaded (length items) category])
                   | (appended, Some e) \<Rightarrow>
                       (appended, [Loading (fst entry), Error_loading (fst entry)])))
      | _ \<Rightarrow> ([], [Loading (fst entry), Error_loading (fst entry)]))"

fun load_loop :: "directory \<Rightarrow> json list \<times> event list" where
  "load_loop [] = ([], [])"
| "load_loop (entry # rest) =
     (case load_file entry of
        (appended, printed) \<Rightarrow>
          (case load_loop rest of
             (more, printed') \<Rightarrow> (appended @ more, printed @ printed')))"

definition load_knowledge_files :: "directory \<Rightarrow> json list \<times> event list" where
  "load_knowledge_files knowledge_dir =
     (let json_files = glob_json knowledge_dir
      in if json_files = [] then ([], [Warning_no_json_files]) else load_loop json_files)"


section \<open>The storage engine\<close>

text \<open>
  The database file holds the names of the schema objects created so far, the rows of
  \<^verbatim>\<open>knowledge\<close> with their rowids, the entries of the full-text table \<^verbatim>\<open>knowledge_fts\<close> with
  their rowids, and the rows of \<^verbatim>\<open>metadata\<close>. Every column of \<^verbatim>\<open>knowledge\<close> that the script
  writes has TEXT affinity, so a stored value is NULL or a text; \<^verbatim>\<open>embedding\<close> is only ever
  written as NULL.

  \<^verbatim>\<open>knowledge_fts\<close> is declared with \<^verbatim>\<open>content=knowledge\<close> (lines 67 to 74): an external-content
  table of the FTS5 module. Its own storage is the full-text index only; the rows it returns
  are read from \<^verbatim>\<open>knowledge\<close> by rowid. The model keeps the index as a list of entries, one for
  each set of column values indexed under a rowid; an entry stands for the tokens of its
  values, and tokens that two entries of one rowid share are not told apart.
\<close>

datatype sqlval = SNull | SText string

record krow =
  id_col :: sqlval
  category_col :: sqlval
  keywords_col :: sqlval
  context_col :: sqlval
  priority_col :: sqlval
  embedding_col :: sqlval

record ftsrow =
  fts_id :: sqlval
  fts_category :: sqlval
  fts_keywords :: sqlval
  fts_context :: sqlval

record db =
  objects :: "string list"
  knowledge :: "(nat \<times> krow) list"
  knowledge_fts :: "(nat \<times> ftsrow) list"
  metadata :: "(string \<times> string) list"

definition empty_db :: db where
  "empty_db = \<lparr>objects = [], knowledge = [], knowledge_fts = [], metadata = []\<rparr>"

text \<open>\<^verbatim>\<open>CREATE TABLE\<close> and \<^verbatim>\<open>CREATE VIRTUAL TABLE\<close>: the name must be new.\<close>

definition create_table :: "string \<Rightarrow> db \<Rightarrow> error + db" where
  "create_table name d =
     (if name \<in> set (objects d) then Inl (OperationalError (name @ '' already exists''))
      else Inr (d\<lparr>objects := objects d @ [name]\<rparr>))"

text \<open>\<^verbatim>\<open>CREATE TRIGGER name ... ON tbl\<close> and \<^verbatim>\<open>CREATE INDEX name ON tbl(...)\<close>: the table must
  exist and the name must be new.\<close>

definition create_on :: "string \<Rightarrow> string \<Rightarrow> db \<Rightarrow> error + db" where
  "create_on name tbl d =
     (if tbl \<notin> set (objects d) then Inl (OperationalError (''no such table: '' @ tbl))
      else if name \<in> set (objects d) then Inl (OperationalError (name @ '' already exists''))
      else Inr (d\<lparr>objects := objects d @ [name]\<rparr>))"

text \<open>The rowid given to a new row: one more than the largest rowid in use, 1 in an empty table.\<close>

definition next_rowid :: "(nat \<times> 'r) list \<Rightarrow> nat" where
  "next_rowid rows = Suc (fold max (map fst rows) 0)"

text \<open>The columns of a \<^verbatim>\<open>knowledge\<close> row that the triggers copy into \<^verbatim>\<open>knowledge_fts\<close>.\<close>

definition fts_columns :: "krow \<Rightarrow> ftsrow" where
  "fts_columns r =
     \<lparr>fts_id = id_col r, fts_category = category_col r,
      fts_keywords = keywords_col r, fts_context = context_col r\<rparr>"

text \<open>
  Trigger \<^verbatim>\<open>knowledge_ai\<close>, lines 79 to 82:
  \<^verbatim>\<open>INSERT INTO knowledge_fts(rowid, id, category, keywords, context)
  VALUES (new.rowid, new.id, new.category, new.keywords, new.context)\<close>.
  The values are indexed under the given rowid; an external-content table does not check the
  rowid against the entries it already holds.
\<close>

definition knowledge_ai :: "nat \<times> krow \<Rightarrow> db \<Rightarrow> error + db" where
  "knowledge_ai new d =
     (if ''knowledge_fts'' \<notin> set (objects d)
      then Inl (OperationalError ''no such table: knowledge_fts'')
      else Inr (d\<lparr>knowledge_fts := knowledge_fts d @ [(fst new, fts_columns (snd new))]\<rparr>))"



text \<open>A trigger runs when it has been created.\<close>

definition fire :: "string \<Rightarrow> (db \<Rightarrow> error + db) \<Rightarrow> db \<Rightarrow> error + db" where
  "fire name body d = (if name \<in> set (objects d) then body d else Inr d)"

text \<open>
  The constraints of \<^verbatim>\<open>knowledge\<close>: the four NOT NULL columns are checked first, then the
  primary key \<^verbatim>\<open>id\<close> against the ids of the other rows. The table is an ordinary rowid table,
  where the engine accepts NULL in a primary key of type TEXT and never takes two NULLs
  for equal.
\<close>

definition check_row :: "krow \<Rightarrow> sqlval list \<Rightarrow> error option" where
  "check_row r others =
     (if category_col r = SNull
      then Some (IntegrityError ''NOT NULL constraint failed: knowledge.category'')
      else if keywords_col r = SNull
      then Some (IntegrityError ''NOT NULL constraint failed: knowledge.keywords'')
      else if context_col r = SNull
      then Some (IntegrityError ''NOT NULL constraint failed: knowledge.context'')
      else if priority_col r = SNull
      then Some (IntegrityError ''NOT NULL constraint failed: knowledge.priority'')
      else if id_col r \<noteq> SNull \<and> id_col r \<in> set others
      then Some (IntegrityError ''UNIQUE constraint failed: knowledge.id'')
      else None)"

text \<open>
  \<^verbatim>\<open>INSERT INTO knowledge (id, category, keywords, context, priority, embedding) VALUES ...\<close>,
  lines 116 to 119, with the after-insert trigger. A statement that fails changes nothing.
\<close>

definition insert_knowledge :: "krow \<Rightarrow> db \<Rightarrow> error + db" where
  "insert_knowledge r d =
     (if ''knowledge'' \<notin> set (objects d)
      then Inl (OperationalError ''no such table: knowledge'')
      else case check_row r (map (\<lambda>p. id_col (snd p)) (knowledge d)) of
             Some e \<Rightarrow> Inl e
           | None \<Rightarrow>
               (let new = (next_rowid (knowledge d), r)
                in fire ''knowledge_ai'' (knowledge_ai new)
                     (d\<lparr>knowledge := knowledge d @ [new]\<rparr>)))"






text \<open>
  \<^verbatim>\<open>INSERT INTO metadata (key, value) VALUES ...\<close>, lines 132 to 138: the rows go in one after
  the other, each key checked against the primary key of \<^verbatim>\<open>metadata\<close>.
\<close>

fun insert_rows :: "(string \<times> string) list \<Rightarrow> db \<Rightarrow> error + db" where
  "insert_rows [] d = Inr d"
| "insert_rows (kv # rest) d =
     (if fst kv \<in> set (map fst (metadata d))
      then Inl (IntegrityError ''UNIQUE constraint failed: metadata.key'')
      else insert_rows rest (d\<lparr>metadata := metadata d @ [kv]\<rparr>))"

definition insert_metadata :: "(string \<times> string) list \<Rightarrow> db \<Rightarrow> error + db" where
  "insert_metadata rows d =
     (if ''metadata'' \<notin> set (objects d)
      then Inl (OperationalError ''no such table: metadata'')
      else insert_rows rows d)"


section \<open>The connection\<close>

text \<open>
  A connection of Python's \<^verbatim>\<open>sqlite3\<close> module in its default mode: the contents of the file
  (what is committed), the contents as the connection sees them, and whether a transaction is
  open. An \<^verbatim>\<open>INSERT\<close> opens a transaction when none is open; a \<^verbatim>\<open>CREATE\<close> statement does not,
  and outside a transaction it is committed at once. When a statement raises, the exception
  leaves \<^verbatim>\<open>create_database\<close> and the process ends without a commit: the file keeps what was
  committed, which the exception carries here.
\<close>

record conn =
  committed :: db
  working :: db
  in_transaction :: bool

definition connect :: "db option \<Rightarrow> conn" where
  "connect f =
     (let d = (case f of None \<Rightarrow> empty_db | Some d \<Rightarrow> d)
      in \<lparr>committed = d, working = d, in_transaction = False\<rparr>)"

definition execute_ddl :: "(db \<Rightarrow> error + db) \<Rightarrow> conn \<Rightarrow> (error \<times> db) + conn" where
  "execute_ddl stmt c =
     (case stmt (working c) of
        Inl e \<Rightarrow> Inl (e, committed c)
      | Inr d \<Rightarrow>
          Inr (if in_transaction c then c\<lparr>working := d\<rparr>
               else c\<lparr>committed := d, working := d\<rparr>))"

definition execute_dml :: "(db \<Rightarrow> error + db) \<Rightarrow> conn \<Rightarrow> (error \<times> db) + conn" where
  "execute_dml stmt c =
     (case stmt (working c) of
        Inl e \<Rightarrow> Inl (e, committed c)
      | Inr d \<Rightarrow> Inr (c\<lparr>working := d, in_transaction := True\<rparr>))"

definition commit :: "conn \<Rightarrow> conn" where
  "commit c = c\<lparr>committed := working c, in_transaction := False\<rparr>"


section \<open>The database builder\<close>

text \<open>
  Binding a Python value to a placeholder of the \<^verbatim>\<open>INSERT\<close>: \<^verbatim>\<open>None\<close> is NULL, a string is
  a text, an integer (a boolean is one) must fit 64 bits and is stored in its column of TEXT
  affinity as its decimal text, a list or a dictionary is refused.
\<close>

fun bind_param :: "json \<Rightarrow> error + sqlval" where
  "bind_param JNull = Inr SNull"
| "bind_param (JBool b) = Inr (SText (if b then ''1'' else ''0''))"
| "bind_param (JInt n) =
     (if - (2 ^ 63) \<le> n \<and> n < 2 ^ 63 then Inr (SText (str_int n)) else Inl OverflowError)"
| "bind_param (JStr s) = Inr (SText s)"
| "bind_param (JArr xs) = Inl BindingError"
| "bind_param (JObj d) = Inl BindingError"

text \<open>Lines 110 to 114: the five local variables of the loop body, in the order they are
  evaluated.\<close>

definition scenario_values :: "json \<Rightarrow> error + json \<times> json \<times> string \<times> json \<times> json" where
  "scenario_values scenario =
     then_e (subscript scenario ''id'') (\<lambda>scenario_id.
     then_e (subscript scenario ''category'') (\<lambda>category.
     then_e (subscript scenario ''keywords'') (\<lambda>kws.
     then_e (str_join '', '' kws) (\<lambda>keywords.
     then_e (subscript scenario ''context'') (\<lambda>context.
     then_e (subscript scenario ''priority'') (\<lambda>priority.
     Inr (scenario_id, category, keywords, context, priority)))))))"

text \<open>Lines 116 to 119: the row that the parameters \<^verbatim>\<open>(scenario_id, category, keywords, context,
  priority)\<close> and the literal \<^verbatim>\<open>NULL\<close> make.\<close>

definition bind_params :: "json \<times> json \<times> string \<times> json \<times> json \<Rightarrow> error + krow" where
  "bind_params params =
     (case params of (scenario_id, category, keywords, context, priority) \<Rightarrow>
        then_e (bind_param scenario_id) (\<lambda>v1.
        then_e (bind_param category) (\<lambda>v2.
        then_e (bind_param context) (\<lambda>v4.
        then_e (bind_param priority) (\<lambda>v5.
        Inr \<lparr>id_col = v1, category_col = v2, keywords_col = SText keywords,
             context_col = v4, priority_col = v5, embedding_col = SNull\<rparr>)))))"

definition scenario_row :: "json \<Rightarrow> error + krow" where
  "scenario_row scenario = then_e (scenario_values scenario) bind_params"

text \<open>The loop of lines 109 to 122. Its progress lines are not part of the state modelled.\<close>

definition insert_scenario :: "json \<Rightarrow> conn \<Rightarrow> (error \<times> db) + conn" where
  "insert_scenario scenario c =
     (case scenario_row scenario of
        Inl e \<Rightarrow> Inl (e, committed c)
      | Inr row \<Rightarrow> execute_dml (insert_knowledge row) c)"

fun insert_scenarios :: "json list \<Rightarrow> conn \<Rightarrow> (error \<times> db) + conn" where
  "insert_scenarios [] c = Inr c"
| "insert_scenarios (scenario # rest) c =
     then_e (insert_scenario scenario c) (insert_scenarios rest)"

text \<open>
  \<^verbatim>\<open>create_database(db_path, scenarios)\<close>. The first argument is what is at the output path
  before the call: nothing, or a file. The result is the contents of the file at the output
  path afterwards, together with the exception when one ended the call.
\<close>

definition create_database :: "db option \<Rightarrow> json list \<Rightarrow> (error \<times> db) + db" where
  "create_database db_path scenarios =
     (let at_path = (case db_path of Some existing \<Rightarrow> None | None \<Rightarrow> None);
          c = connect at_path
      in then_e (execute_ddl (create_table ''knowledge'') c) (\<lambda>c.
         then_e (execute_ddl (create_table ''knowledge_fts'') c) (\<lambda>c.
         then_e (execute_ddl (create_on ''knowledge_ai'' ''knowledge'') c) (\<lambda>c.
         then_e (execute_ddl (create_on ''knowledge_ad'' ''knowledge'') c) (\<lambda>c.
         then_e (execute_ddl (create_on ''knowledge_au'' ''knowledge'') c) (\<lambda>c.
         then_e (execute_ddl (create_on ''idx_category'' ''knowledge'') c) (\<lambda>c.
         then_e (execute_ddl (create_on ''idx_priority'' ''knowledge'') c) (\<lambda>c.
         then_e (insert_scenarios scenarios c) (\<lambda>c.
         then_e (execute_ddl (create_table ''metadata'') c) (\<lambda>c.
         then_e (execute_dml (insert_metadata
                   [(''model_name'', ''keyword-only''),
                    (''embedding_dim'', ''0''),
                    (''version'', ''1.0-basic''),
                    (''total_scenarios'', str_nat (length scenarios))]) c) (\<lambda>c.
         Inr (committed (commit c)))))))))))))"


section \<open>The top-level procedure\<close>

text \<open>
  Lines 177 to 190: the verification reopens the file and reads the number of rows of
  \<^verbatim>\<open>knowledge\<close> and the rows of \<^verbatim>\<open>metadata\<close>.
\<close>

definition verify :: "db \<Rightarrow> error + nat \<times> (string \<times> string) list" where
  "verify d =
     (if ''knowledge'' \<notin> set (objects d)
      then Inl (OperationalError ''no such table: knowledge'')
      else if ''metadata'' \<notin> set (objects d)
      then Inl (OperationalError ''no such table: metadata'')
      else Inr (length (knowledge d), metadata d))"

text \<open>
  \<^verbatim>\<open>main()\<close>, given the knowledge directory (\<open>None\<close> when it does not exist) and what is at the
  output path. \<^verbatim>\<open>sys.exit(1)\<close> and an exception that nothing catches both end the process
  with status 1. The lines that \<^verbatim>\<open>main\<close> prints and the creation of the parent directory of
  the output path (line 174) are not part of the state modelled.
\<close>

record outcome =
  exit_code :: nat
  output_file :: "db option"

definition main :: "directory option \<Rightarrow> db option \<Rightarrow> outcome" where
  "main knowledge_dir output_db =
     (case knowledge_dir of
        None \<Rightarrow> \<lparr>exit_code = 1, output_file = output_db\<rparr>
      | Some dir \<Rightarrow>
          (let scenarios = fst (load_knowledge_files dir)
           in if scenarios = [] then \<lparr>exit_code = 1, output_file = output_db\<rparr>
              else case create_database output_db scenarios of
                     Inl (e, f) \<Rightarrow> \<lparr>exit_code = 1, output_file = Some f\<rparr>
                   | Inr f \<Rightarrow>
                       (case verify f of
                          Inl e \<Rightarrow> \<lparr>exit_code = 1, output_file = Some f\<rparr>
                        | Inr report \<Rightarrow> \<lparr>exit_code = 0, output_file = Some f\<rparr>)))"


section \<open>Notions used in the statements\<close>

subsection \<open>The database after the schema statements\<close>

text \<open>
  The seven \<^verbatim>\<open>CREATE\<close> statements of lines 54 to 104 run before the first \<^verbatim>\<open>INSERT\<close>, on an empty
  file. \<open>schema_db\<close> is the database they leave and \<open>schema_conn\<close> the connection at that
  point; \<open>conn_with\<close> is the connection after some of them.
\<close>

definition schema_objects :: "string list" where
  "schema_objects =
     [''knowledge'', ''knowledge_fts'', ''knowledge_ai'', ''knowledge_ad'', ''knowledge_au'',
      ''idx_category'', ''idx_priority'']"

definition schema_db :: db where
  "schema_db = empty_db\<lparr>objects := schema_objects\<rparr>"

definition schema_conn :: conn where
  "schema_conn = \<lparr>committed = schema_db, working = schema_db, in_transaction = False\<rparr>"

definition conn_with :: "string list \<Rightarrow> conn" where
  "conn_with objs =
     \<lparr>committed = empty_db\<lparr>objects := objs\<rparr>, working = empty_db\<lparr>objects := objs\<rparr>,
      in_transaction = False\<rparr>"

text \<open>\<open>has_schema\<close>: the two tables, the three triggers and the two indexes exist.\<close>

definition has_schema :: "db \<Rightarrow> bool" where
  "has_schema d = (set schema_objects \<subseteq> set (objects d))"

subsection \<open>Consistency of the full-text table\<close>


definition fts_mirror :: "db \<Rightarrow> bool" where
  "fts_mirror d = (knowledge_fts d = map (\<lambda>p. (fst p, fts_columns (snd p))) (knowledge d))"

subsection \<open>Scenarios as the specification describes them\<close>

text \<open>
  A scenario object of an input file has a string \<^verbatim>\<open>id\<close>, a list of strings \<^verbatim>\<open>keywords\<close>, a
  string \<^verbatim>\<open>context\<close> and a string \<^verbatim>\<open>priority\<close>. A scenario handed to \<^verbatim>\<open>create_database\<close> is
  well formed when it has, in addition, a string \<^verbatim>\<open>category\<close>.
\<close>

fun is_str :: "json \<Rightarrow> bool" where
  "is_str (JStr s) = True"
| "is_str x = False"

definition field_is_str :: "(string \<times> json) list \<Rightarrow> string \<Rightarrow> bool" where
  "field_is_str d k = (case map_of d k of Some (JStr s) \<Rightarrow> True | _ \<Rightarrow> False)"

definition field_is_strs :: "(string \<times> json) list \<Rightarrow> string \<Rightarrow> bool" where
  "field_is_strs d k = (case map_of d k of Some (JArr xs) \<Rightarrow> list_all is_str xs | _ \<Rightarrow> False)"

definition valid_scenario_object :: "json \<Rightarrow> bool" where
  "valid_scenario_object s =
     (case s of
        JObj d \<Rightarrow> field_is_str d ''id'' \<and> field_is_strs d ''keywords'' \<and>
                  field_is_str d ''context'' \<and> field_is_str d ''priority''
      | _ \<Rightarrow> False)"

definition wf_scenario :: "json \<Rightarrow> bool" where
  "wf_scenario s =
     (valid_scenario_object s \<and> (case s of JObj d \<Rightarrow> field_is_str d ''category'' | _ \<Rightarrow> False))"

text \<open>The id of a scenario, and the text stored for a string.\<close>

definition scenario_id :: "json \<Rightarrow> json" where
  "scenario_id s = (case s of JObj d \<Rightarrow> dict_get d ''id'' JNull | _ \<Rightarrow> JNull)"

definition text_of :: "json \<Rightarrow> sqlval" where
  "text_of x = (case x of JStr s \<Rightarrow> SText s | _ \<Rightarrow> SNull)"

subsection \<open>Valid knowledge directories\<close>

text \<open>
  The scenario objects of a file are the elements of the \<^verbatim>\<open>scenarios\<close> list of its top-level
  object; a file that cannot be read or parsed, or whose value has another shape, has none.
  The scenario objects of a directory are those of the files that \<^verbatim>\<open>glob\<close> returns.
\<close>

definition scenario_objects :: "file_contents \<Rightarrow> json list" where
  "scenario_objects f =
     (case f of
        Parsed (JObj data) \<Rightarrow>
          (case dict_get data ''scenarios'' (JArr []) of JArr xs \<Rightarrow> xs | _ \<Rightarrow> [])
      | _ \<Rightarrow> [])"

definition file_category :: "file_contents \<Rightarrow> json" where
  "file_category f =
     (case f of
        Parsed (JObj data) \<Rightarrow> dict_get data ''category'' (JStr ''unknown'')
      | _ \<Rightarrow> JStr ''unknown'')"

definition all_scenario_objects :: "directory \<Rightarrow> json list" where
  "all_scenario_objects dir = concat (map (\<lambda>entry. scenario_objects (snd entry)) (glob_json dir))"

text \<open>
  A directory is valid when every scenario object in it has the required fields, the category
  of every file that has scenario objects is a string, and the ids of all its scenario objects
  are distinct.
\<close>

definition valid_file :: "file_contents \<Rightarrow> bool" where
  "valid_file f =
     (list_all valid_scenario_object (scenario_objects f) \<and>
      (scenario_objects f \<noteq> [] \<longrightarrow> is_str (file_category f)))"

definition valid_dir :: "directory \<Rightarrow> bool" where
  "valid_dir dir =
     (list_all (\<lambda>entry. valid_file (snd entry)) (glob_json dir) \<and>
      distinct (map scenario_id (all_scenario_objects dir)))"

text \<open>A scenario with its category set, as line 31 does.\<close>

definition with_category :: "json \<Rightarrow> json \<Rightarrow> json" where
  "with_category category s =
     (case s of JObj d \<Rightarrow> JObj (dict_set ''category'' category d) | _ \<Rightarrow> s)"

subsection \<open>Example inputs\<close>

text \<open>
  Two scenarios (the first carries a category of its own), a directory with a malformed file
  and a file that is not matched by \<^verbatim>\<open>*.json\<close>, a directory in which an id is repeated across
  files, the database that the build makes of the first directory, the databases that two
  insertions, a deletion and an update lead to from it, scenarios with no, one and three
  keywords, and scenarios numbered by their ids.
\<close>

definition fire_01 :: json where
  "fire_01 = JObj [(''id'', JStr ''fire-01''), (''category'', JStr ''own''),
                   (''keywords'', JArr [JStr ''smoke'', JStr ''flame'']),
                   (''context'', JStr ''...''), (''priority'', JStr ''high'')]"

definition flood_01 :: json where
  "flood_01 = JObj [(''id'', JStr ''flood-01''), (''keywords'', JArr [JStr ''water'']),
                    (''context'', JStr ''rising''), (''priority'', JStr ''low'')]"

definition example_dir :: directory where
  "example_dir =
     [(''fire.json'', Parsed (JObj [(''category'', JStr ''fire''), (''scenarios'', JArr [fire_01])])),
      (''broken.json'', Malformed),
      (''notes.txt'', Unreadable),
      (''flood.json'', Parsed (JObj [(''scenarios'', JArr [flood_01])]))]"

definition duplicate_dir :: directory where
  "duplicate_dir =
     [(''fire.json'', Parsed (JObj [(''category'', JStr ''fire''), (''scenarios'', JArr [fire_01, flood_01])])),
      (''more.json'', Parsed (JObj [(''category'', JStr ''heat''), (''scenarios'', JArr [fire_01])]))]"

definition example_db :: db where
  "example_db =
     \<lparr>objects = [''knowledge'', ''knowledge_fts'', ''knowledge_ai'', ''knowledge_ad'',
                 ''knowledge_au'', ''idx_category'', ''idx_priority'', ''metadata''],
      knowledge =
        [(1, \<lparr>id_col = SText ''fire-01'', category_col = SText ''fire'',
               keywords_col = SText ''smoke, flame'', context_col = SText ''...'',
               priority_col = SText ''high'', embedding_col = SNull\<rparr>),
         (2, \<lparr>id_col = SText ''flood-01'', category_col = SText ''unknown'',
               keywords_col = SText ''water'', context_col = SText ''rising'',
               priority_col = SText ''low'', embedding_col = SNull\<rparr>)],
      knowledge_fts =
        [(1, \<lparr>fts_id = SText ''fire-01'', fts_category = SText ''fire'',
               fts_keywords = SText ''smoke, flame'', fts_context = SText ''...''\<rparr>),
         (2, \<lparr>fts_id = SText ''flood-01'', fts_category = SText ''unknown'',
               fts_keywords = SText ''water'', fts_context = SText ''rising''\<rparr>)],
      metadata =
        [(''model_name'', ''keyword-only''), (''embedding_dim'', ''0''),
         (''version'', ''1.0-basic''), (''total_scenarios'', ''2'')]\<rparr>"

definition quake_row :: krow where
  "quake_row =
     \<lparr>id_col = SText ''quake-01'', category_col = SText ''quake'',
      keywords_col = SText ''tremor'', context_col = SText ''shaking'',
      priority_col = SText ''high'', embedding_col = SNull\<rparr>"

definition storm_row :: krow where
  "storm_row =
     \<lparr>id_col = SText ''storm-01'', category_col = SText ''storm'',
      keywords_col = SText ''wind, rain'', context_col = SText ''gusts'',
      priority_col = SText ''low'', embedding_col = SNull\<rparr>"

definition after_statements :: db where
  "after_statements =
     example_db
       \<lparr>knowledge := knowledge example_db @ [(3, quake_row), (4, storm_row)],
        knowledge_fts := knowledge_fts example_db @
          [(3, fts_columns quake_row), (4, fts_columns storm_row)]\<rparr>"




definition keyword_examples :: "json list" where
  "keyword_examples =
     [JObj [(''id'', JStr ''k0''), (''category'', JStr ''c''), (''keywords'', JArr []),
            (''context'', JStr ''x''), (''priority'', JStr ''p'')],
      JObj [(''id'', JStr ''k1''), (''category'', JStr ''c''), (''keywords'', JArr [JStr ''water'']),
            (''context'', JStr ''x''), (''priority'', JStr ''p'')],
      JObj [(''id'', JStr ''k3''), (''category'', JStr ''c''),
            (''keywords'', JArr [JStr ''smoke'', JStr ''flame'', JStr ''heat'']),
            (''context'', JStr ''x''), (''priority'', JStr ''p'')]]"

definition numbered :: "nat \<Rightarrow> json" where
  "numbered n =
     JObj [(''id'', JStr (str_nat n)), (''category'', JStr ''c''), (''keywords'', JArr []),
           (''context'', JStr ''x''), (''priority'', JStr ''p'')]"



section \<open>Lemmas\<close>

subsection \<open>Sequencing, dictionaries and joined strings\<close>

lemma then_e_Inl [simp]: "then_e (Inl e) f = Inl e"
  by (simp add: then_e_def)

lemma then_e_Inr [simp]: "then_e (Inr x) f = f x"
  by (simp add: then_e_def)

lemma then_e_eq_Inr: "then_e r f = Inr y \<longleftrightarrow> (\<exists>x. r = Inr x \<and> f x = Inr y)"
  by (cases r) simp_all

lemma then_e_eq_Inl: "then_e r f = Inl e \<longleftrightarrow> r = Inl e \<or> (\<exists>x. r = Inr x \<and> f x = Inl e)"
  by (cases r) simp_all

lemma map_of_dict_set: "map_of (dict_set k v d) = (map_of d)(k \<mapsto> v)"
  by (induction d) (auto simp: fun_eq_iff)

lemma the_strs_map_JStr: "the_strs (map JStr ks) = Inr ks"
  by (induction ks) simp_all

lemma str_join_list: "str_join sep (JArr (map JStr ks)) = Inr (join sep ks)"
  by (simp add: str_join_def the_strs_map_JStr)

subsection \<open>Decimal texts and joined keywords\<close>

lemma of_char_digit_char:
  assumes "d < 10"
  shows "(of_char (digit_char d) :: nat) = 48 + d"
proof -
  from assms have "d = 0 \<or> d = 1 \<or> d = 2 \<or> d = 3 \<or> d = 4 \<or> d = 5 \<or> d = 6 \<or> d = 7 \<or>
    d = 8 \<or> d = 9"
    by arith
  then show ?thesis by (elim disjE) (simp_all add: digit_char_def)
qed

lemma str_nat_value:
  "foldl (\<lambda>a c. 10 * a + (of_char c - 48)) 0 (str_nat n) = n"
proof (induction n rule: str_nat.induct)
  case (1 n)
  show ?case
  proof (cases "n < 10")
    case True
    then show ?thesis by (subst str_nat.simps) (simp add: of_char_digit_char)
  next
    case False
    have "n mod 10 < 10" by simp
    then have "(of_char (digit_char (n mod 10)) :: nat) = 48 + n mod 10"
      by (rule of_char_digit_char)
    with False "1.IH" show ?thesis by (subst str_nat.simps) simp
  qed
qed

lemma str_nat_digits:
  "c \<in> set (str_nat n) \<Longrightarrow> 48 \<le> (of_char c :: nat) \<and> (of_char c :: nat) \<le> 57"
proof (induction n rule: str_nat.induct)
  case (1 n)
  show ?case
  proof (cases "n < 10")
    case True
    with "1.prems" have "c = digit_char n" by (subst (asm) str_nat.simps) simp
    with True show ?thesis by (simp add: of_char_digit_char)
  next
    case False
    have m: "n mod 10 < 10" by simp
    from "1.prems" False have "c \<in> set (str_nat (n div 10)) \<or> c = digit_char (n mod 10)"
      by (subst (asm) str_nat.simps) auto
    then show ?thesis
    proof
      assume "c \<in> set (str_nat (n div 10))"
      then show ?thesis by (rule "1.IH" [OF False])
    next
      assume "c = digit_char (n mod 10)"
      then show ?thesis using of_char_digit_char [OF m] by simp
    qed
  qed
qed

lemma str_nat_nonempty: "str_nat n \<noteq> []"
  by (subst str_nat.simps) simp

lemma str_nat_leading_zero:
  "hd (str_nat n) = CHR ''0'' \<Longrightarrow> str_nat n = ''0''"
proof (induction n rule: str_nat.induct)
  case (1 n)
  show ?case
  proof (cases "n < 10")
    case True
    with "1.prems" have "digit_char n = CHR ''0''" by (subst (asm) str_nat.simps) simp
    then have "(of_char (digit_char n) :: nat) = 48" by simp
    with True have "n = 0" by (simp add: of_char_digit_char)
    then show ?thesis by (subst str_nat.simps) (simp add: digit_char_def)
  next
    case False
    have "hd (str_nat n) = hd (str_nat (n div 10))"
      using False str_nat_nonempty [of "n div 10"] by (subst str_nat.simps) simp
    with "1.prems" have "hd (str_nat (n div 10)) = CHR ''0''" by simp
    then have z: "str_nat (n div 10) = ''0''" by (rule "1.IH" [OF False])
    have "foldl (\<lambda>a c. 10 * a + (of_char c - 48)) 0 (str_nat (n div 10)) = n div 10"
      by (rule str_nat_value)
    then have "n div 10 = 0" unfolding z by simp
    with False show ?thesis by simp
  qed
qed

lemma join_comma:
  "join sep ks = (case ks of [] \<Rightarrow> [] | k # rest \<Rightarrow> k @ concat (map (\<lambda>x. sep @ x) rest))"
  by (induction sep ks rule: join.induct) simp_all

subsection \<open>The loader, file by file\<close>

lemma glob_json_append: "glob_json (xs @ ys) = glob_json xs @ glob_json ys"
  by (simp add: glob_json_def)

lemma load_loop_append:
  "load_loop (xs @ ys) = (fst (load_loop xs) @ fst (load_loop ys), snd (load_loop xs) @ snd (load_loop ys))"
  by (induction xs) (auto split: prod.splits)

lemma fst_load_loop: "fst (load_loop es) = concat (map (\<lambda>e. fst (load_file e)) es)"
  by (induction es) (auto split: prod.splits)

lemma fst_load_knowledge_files:
  "fst (load_knowledge_files dir) = concat (map (\<lambda>e. fst (load_file e)) (glob_json dir))"
  by (simp add: load_knowledge_files_def Let_def fst_load_loop)

lemma load_file_failed:
  "c = Unreadable \<or> c = Malformed \<Longrightarrow> load_file (n, c) = ([], [Loading n, Error_loading n])"
  by (auto simp: load_file_def)

lemma tag_scenarios_category:
  "s \<in> set (fst (tag_scenarios category items)) \<Longrightarrow>
     \<exists>d. s = JObj d \<and> map_of d ''category'' = Some category"
proof (induction category items rule: tag_scenarios.induct)
  case (2 category d rest)
  then show ?case by (auto simp: map_of_dict_set split: prod.splits)
qed simp_all

lemma fst_load_file_object:
  "fst (load_file (n, Parsed (JObj data))) =
     (case py_iter (dict_get data ''scenarios'' (JArr [])) of
        Inl e \<Rightarrow> []
      | Inr items \<Rightarrow> fst (tag_scenarios (dict_get data ''category'' (JStr ''unknown'')) items))"
  by (simp add: load_file_def Let_def split: sum.splits prod.splits option.splits)

lemma load_file_category:
  assumes "s \<in> set (fst (load_file (n, Parsed (JObj data))))"
  shows "\<exists>d. s = JObj d \<and> map_of d ''category'' = Some (dict_get data ''category'' (JStr ''unknown''))"
proof (cases "py_iter (dict_get data ''scenarios'' (JArr []))")
  case (Inl e)
  with assms show ?thesis by (simp add: fst_load_file_object)
next
  case (Inr items)
  with assms have "s \<in> set (fst (tag_scenarios (dict_get data ''category'' (JStr ''unknown'')) items))"
    by (simp add: fst_load_file_object)
  then show ?thesis by (rule tag_scenarios_category)
qed

lemma load_file_not_object:
  "(\<And>data. c \<noteq> Parsed (JObj data)) \<Longrightarrow> fst (load_file (n, c)) = []"
  by (auto simp: load_file_def split: file_contents.splits json.splits)

subsection \<open>The schema statements\<close>


lemma connect_None: "connect None = conn_with []"
  by (simp add: connect_def conn_with_def empty_db_def Let_def)

lemma create_table_conn_with:
  "name \<notin> set objs \<Longrightarrow>
     execute_ddl (create_table name) (conn_with objs) = Inr (conn_with (objs @ [name]))"
  by (simp add: execute_ddl_def create_table_def conn_with_def empty_db_def)

lemma create_on_conn_with:
  "tbl \<in> set objs \<Longrightarrow> name \<notin> set objs \<Longrightarrow>
     execute_ddl (create_on name tbl) (conn_with objs) = Inr (conn_with (objs @ [name]))"
  by (simp add: execute_ddl_def create_on_def conn_with_def empty_db_def)

lemma schema_conn_with: "schema_conn = conn_with schema_objects"
  by (simp add: schema_conn_def schema_db_def conn_with_def)

lemma create_database_schema:
  "create_database db_path scenarios =
     then_e (insert_scenarios scenarios schema_conn) (\<lambda>c.
     then_e (execute_ddl (create_table ''metadata'') c) (\<lambda>c.
     then_e (execute_dml (insert_metadata
               [(''model_name'', ''keyword-only''),
                (''embedding_dim'', ''0''),
                (''version'', ''1.0-basic''),
                (''total_scenarios'', str_nat (length scenarios))]) c) (\<lambda>c.
     Inr (committed (commit c)))))"
proof -
  have at_path: "(case db_path of Some existing \<Rightarrow> None | None \<Rightarrow> None) = (None :: db option)"
    by (cases db_path) simp_all
  show ?thesis
    unfolding create_database_def at_path Let_def connect_None schema_conn_with schema_objects_def
    by (simp add: create_table_conn_with create_on_conn_with)
qed

subsection \<open>The insertion loop\<close>

lemma insert_knowledge_mirror:
  assumes "has_schema d" and "fts_mirror d"
  shows "insert_knowledge r d =
           (case check_row r (map (\<lambda>p. id_col (snd p)) (knowledge d)) of
              Some e \<Rightarrow> Inl e
            | None \<Rightarrow>
                Inr (d\<lparr>knowledge := knowledge d @ [(next_rowid (knowledge d), r)],
                       knowledge_fts := knowledge_fts d @ [(next_rowid (knowledge d), fts_columns r)]\<rparr>))"
proof -
  have objs: "''knowledge'' \<in> set (objects d)" "''knowledge_ai'' \<in> set (objects d)"
    "''knowledge_fts'' \<in> set (objects d)"
    using assms(1) by (auto simp: has_schema_def schema_objects_def)
  show ?thesis
    using objs
    by (simp add: insert_knowledge_def fire_def knowledge_ai_def Let_def split: option.splits)
qed

lemma insert_scenario_Inl: "insert_scenario s c = Inl (e, f) \<Longrightarrow> f = committed c"
  by (auto simp: insert_scenario_def execute_dml_def split: sum.splits)

lemma insert_scenario_committed: "insert_scenario s c = Inr c' \<Longrightarrow> committed c' = committed c"
  by (auto simp: insert_scenario_def execute_dml_def split: sum.splits)

lemma insert_scenarios_Inl: "insert_scenarios scs c = Inl (e, f) \<Longrightarrow> f = committed c"
proof (induction scs arbitrary: c)
  case Nil
  then show ?case by simp
next
  case (Cons s scs)
  from Cons.prems consider "insert_scenario s c = Inl (e, f)"
    | c' where "insert_scenario s c = Inr c'" "insert_scenarios scs c' = Inl (e, f)"
    by (auto simp: then_e_eq_Inl)
  then show ?case
  proof cases
    case 1
    then show ?thesis by (rule insert_scenario_Inl)
  next
    case 2
    then show ?thesis using Cons.IH insert_scenario_committed by metis
  qed
qed

lemma insert_scenario_step:
  assumes "has_schema (working c)" and "fts_mirror (working c)"
  shows "insert_scenario s c =
           (case scenario_row s of
              Inl e \<Rightarrow> Inl (e, committed c)
            | Inr r \<Rightarrow>
                (case check_row r (map (\<lambda>p. id_col (snd p)) (knowledge (working c))) of
                   Some e \<Rightarrow> Inl (e, committed c)
                 | None \<Rightarrow>
                     Inr (c\<lparr>working := (working c)
                              \<lparr>knowledge := knowledge (working c) @
                                 [(next_rowid (knowledge (working c)), r)],
                               knowledge_fts := knowledge_fts (working c) @
                                 [(next_rowid (knowledge (working c)), fts_columns r)]\<rparr>,
                            in_transaction := True\<rparr>)))"
  by (simp add: insert_scenario_def execute_dml_def insert_knowledge_mirror [OF assms]
           split: sum.splits option.splits)

lemma insert_scenario_Inr:
  assumes "has_schema (working c)" and "fts_mirror (working c)"
    and "insert_scenario s c = Inr c'"
  shows "\<exists>r. scenario_row s = Inr r \<and>
             check_row r (map (\<lambda>p. id_col (snd p)) (knowledge (working c))) = None \<and>
             knowledge (working c') = knowledge (working c) @ [(next_rowid (knowledge (working c)), r)] \<and>
             has_schema (working c') \<and> fts_mirror (working c') \<and>
             objects (working c') = objects (working c) \<and>
             metadata (working c') = metadata (working c) \<and>
             committed c' = committed c"
  using assms(3) assms(1,2) unfolding insert_scenario_step [OF assms(1,2)]
  by (auto simp: has_schema_def fts_mirror_def split: sum.splits option.splits)

lemma insert_scenarios_Inr:
  assumes "has_schema (working c)" and "fts_mirror (working c)"
    and "insert_scenarios scs c = Inr c'"
  shows "has_schema (working c') \<and> fts_mirror (working c') \<and>
         objects (working c') = objects (working c) \<and>
         metadata (working c') = metadata (working c) \<and>
         committed c' = committed c \<and>
         (\<exists>rows. list_all2 (\<lambda>s r. scenario_row s = Inr r) scs rows \<and>
                  map snd (knowledge (working c')) = map snd (knowledge (working c)) @ rows)"
  using assms
proof (induction scs arbitrary: c)
  case Nil
  then show ?case by simp
next
  case (Cons s scs)
  from Cons.prems(3) obtain c1 where
    step: "insert_scenario s c = Inr c1" and rest: "insert_scenarios scs c1 = Inr c'"
    by (auto simp: then_e_eq_Inr)
  from insert_scenario_Inr [OF Cons.prems(1,2) step] obtain r where
    r: "scenario_row s = Inr r"
    and k1: "knowledge (working c1) = knowledge (working c) @ [(next_rowid (knowledge (working c)), r)]"
    and inv1: "has_schema (working c1)" "fts_mirror (working c1)"
    and same1: "objects (working c1) = objects (working c)"
      "metadata (working c1) = metadata (working c)" "committed c1 = committed c"
    by blast
  from Cons.IH [OF inv1 rest] obtain rows where
    inv': "has_schema (working c')" "fts_mirror (working c')"
    and same': "objects (working c') = objects (working c1)"
      "metadata (working c') = metadata (working c1)" "committed c' = committed c1"
    and rows: "list_all2 (\<lambda>s r. scenario_row s = Inr r) scs rows"
      "map snd (knowledge (working c')) = map snd (knowledge (working c1)) @ rows"
    by blast
  have "list_all2 (\<lambda>s r. scenario_row s = Inr r) (s # scs) (r # rows)"
    using r rows(1) by simp
  moreover have "map snd (knowledge (working c')) = map snd (knowledge (working c)) @ r # rows"
    using rows(2) k1 by simp
  ultimately show ?case using inv' same' same1 by auto
qed

lemma schema_conn_inv: "has_schema (working schema_conn)" "fts_mirror (working schema_conn)"
  by (simp_all add: schema_conn_def schema_db_def has_schema_def fts_mirror_def empty_db_def)

lemma create_database_cases:
  "create_database db_path scenarios =
     (case insert_scenarios scenarios schema_conn of
        Inl x \<Rightarrow> Inl x
      | Inr c \<Rightarrow>
          Inr ((working c)
                 \<lparr>objects := schema_objects @ [''metadata''],
                  metadata := [(''model_name'', ''keyword-only''),
                               (''embedding_dim'', ''0''),
                               (''version'', ''1.0-basic''),
                               (''total_scenarios'', str_nat (length scenarios))]\<rparr>))"
proof (cases "insert_scenarios scenarios schema_conn")
  case (Inl x)
  then show ?thesis by (simp add: create_database_schema)
next
  case (Inr c)
  from insert_scenarios_Inr [OF schema_conn_inv Inr]
  have objs: "objects (working c) = schema_objects" and meta: "metadata (working c) = []"
    by (simp_all add: schema_conn_def schema_db_def empty_db_def)
  have new: "''metadata'' \<notin> set (objects (working c))"
    by (simp add: objs schema_objects_def)
  show ?thesis
    using new
    by (simp add: create_database_schema Inr execute_ddl_def execute_dml_def create_table_def
          insert_metadata_def commit_def meta objs)
qed

subsection \<open>Well-formed scenarios\<close>

lemma field_is_strE:
  assumes "field_is_str d k"
  obtains s where "map_of d k = Some (JStr s)"
  using assms by (auto simp: field_is_str_def split: option.splits json.splits)

lemma field_is_strsE:
  assumes "field_is_strs d k"
  obtains xs where "map_of d k = Some (JArr xs)" "list_all is_str xs"
  using assms by (auto simp: field_is_strs_def split: option.splits json.splits)

lemma the_strs_total: "list_all is_str xs \<Longrightarrow> \<exists>ss. the_strs xs = Inr ss \<and> xs = map JStr ss"
proof (induction xs)
  case Nil
  then show ?case by simp
next
  case (Cons x xs)
  then obtain s where x: "x = JStr s" by (cases x) simp_all
  from Cons obtain ss where "the_strs xs = Inr ss" "xs = map JStr ss" by auto
  then have "the_strs (x # xs) = Inr (s # ss) \<and> x # xs = map JStr (s # ss)"
    using x by simp
  then show ?case by (rule exI)
qed

lemma wf_scenario_row:
  assumes "wf_scenario s"
  shows "\<exists>r. scenario_row s = Inr r \<and> id_col r = text_of (scenario_id s) \<and>
             id_col r \<noteq> SNull \<and> category_col r \<noteq> SNull \<and> keywords_col r \<noteq> SNull \<and>
             context_col r \<noteq> SNull \<and> priority_col r \<noteq> SNull"
proof -
  from assms obtain d where s: "s = JObj d"
    and f: "field_is_str d ''id''" "field_is_strs d ''keywords''" "field_is_str d ''context''"
      "field_is_str d ''priority''" "field_is_str d ''category''"
    by (auto simp: wf_scenario_def valid_scenario_object_def split: json.splits)
  from f(1) obtain i where i: "map_of d ''id'' = Some (JStr i)" by (rule field_is_strE)
  from f(2) obtain ks where ks: "map_of d ''keywords'' = Some (JArr ks)" "list_all is_str ks"
    by (rule field_is_strsE)
  from f(3) obtain x where x: "map_of d ''context'' = Some (JStr x)" by (rule field_is_strE)
  from f(4) obtain p where p: "map_of d ''priority'' = Some (JStr p)" by (rule field_is_strE)
  from f(5) obtain c where c: "map_of d ''category'' = Some (JStr c)" by (rule field_is_strE)
  from the_strs_total [OF ks(2)] obtain ss where ss: "the_strs ks = Inr ss" by blast
  have "scenario_row s =
          Inr \<lparr>id_col = SText i, category_col = SText c, keywords_col = SText (join '', '' ss),
               context_col = SText x, priority_col = SText p, embedding_col = SNull\<rparr>"
    by (simp add: scenario_row_def scenario_values_def bind_params_def subscript_def
          str_join_def s i ks(1) x p c ss)
  moreover have "text_of (scenario_id s) = SText i"
    by (simp add: text_of_def scenario_id_def dict_get_def s i)
  ultimately show ?thesis by simp
qed

lemma check_row_nonnull:
  assumes "id_col r \<noteq> SNull" "category_col r \<noteq> SNull" "keywords_col r \<noteq> SNull"
    "context_col r \<noteq> SNull" "priority_col r \<noteq> SNull"
  shows "check_row r others =
           (if id_col r \<in> set others
            then Some (IntegrityError ''UNIQUE constraint failed: knowledge.id'') else None)"
  using assms by (simp add: check_row_def)

lemma insert_scenarios_distinct:
  assumes "has_schema (working c)" and "fts_mirror (working c)"
    and "list_all wf_scenario scs"
    and "distinct (map (\<lambda>s. text_of (scenario_id s)) scs)"
    and "\<forall>s \<in> set scs. text_of (scenario_id s) \<notin> (\<lambda>p. id_col (snd p)) ` set (knowledge (working c))"
  shows "\<exists>c'. insert_scenarios scs c = Inr c'"
  using assms
proof (induction scs arbitrary: c)
  case Nil
  then show ?case by simp
next
  case (Cons s scs)
  from Cons.prems(3) have "wf_scenario s" by simp
  from wf_scenario_row [OF this] obtain r where
    r: "scenario_row s = Inr r" "id_col r = text_of (scenario_id s)"
    and nn: "id_col r \<noteq> SNull" "category_col r \<noteq> SNull" "keywords_col r \<noteq> SNull"
      "context_col r \<noteq> SNull" "priority_col r \<noteq> SNull"
    by blast
  have fresh: "id_col r \<notin> set (map (\<lambda>p. id_col (snd p)) (knowledge (working c)))"
    using Cons.prems(5) r(2) by simp
  define c1 where "c1 = c\<lparr>working := (working c)
                              \<lparr>knowledge := knowledge (working c) @
                                 [(next_rowid (knowledge (working c)), r)],
                               knowledge_fts := knowledge_fts (working c) @
                                 [(next_rowid (knowledge (working c)), fts_columns r)]\<rparr>,
                            in_transaction := True\<rparr>"
  have step: "insert_scenario s c = Inr c1"
    unfolding insert_scenario_step [OF Cons.prems(1,2)] c1_def
    using fresh by (simp add: r(1) check_row_nonnull [OF nn])
  from insert_scenario_Inr [OF Cons.prems(1,2) step]
  have inv1: "has_schema (working c1)" "fts_mirror (working c1)" by blast+
  have k1: "knowledge (working c1) = knowledge (working c) @ [(next_rowid (knowledge (working c)), r)]"
    by (simp add: c1_def)
  have head: "text_of (scenario_id s) \<notin> (\<lambda>s. text_of (scenario_id s)) ` set scs"
    using Cons.prems(4) by simp
  have "\<forall>s' \<in> set scs. text_of (scenario_id s') \<notin> (\<lambda>p. id_col (snd p)) ` set (knowledge (working c1))"
  proof
    fix s' assume s': "s' \<in> set scs"
    then have "text_of (scenario_id s') \<noteq> text_of (scenario_id s)"
      using head by (metis imageI)
    moreover have "text_of (scenario_id s') \<notin> (\<lambda>p. id_col (snd p)) ` set (knowledge (working c))"
      using Cons.prems(5) s' by simp
    ultimately show "text_of (scenario_id s') \<notin> (\<lambda>p. id_col (snd p)) ` set (knowledge (working c1))"
      by (simp add: k1 r(2))
  qed
  moreover have "list_all wf_scenario scs" "distinct (map (\<lambda>s. text_of (scenario_id s)) scs)"
    using Cons.prems(3,4) by simp_all
  ultimately obtain c' where "insert_scenarios scs c1 = Inr c'"
    using Cons.IH [OF inv1] by blast
  then show ?case using step by simp
qed

lemma insert_scenarios_duplicate:
  assumes "has_schema (working c)" and "fts_mirror (working c)"
    and "list_all wf_scenario scs"
    and "\<not> (distinct (map (\<lambda>s. text_of (scenario_id s)) scs) \<and>
            (\<forall>s \<in> set scs. text_of (scenario_id s) \<notin> (\<lambda>p. id_col (snd p)) ` set (knowledge (working c))))"
  shows "insert_scenarios scs c =
           Inl (IntegrityError ''UNIQUE constraint failed: knowledge.id'', committed c)"
  using assms
proof (induction scs arbitrary: c)
  case Nil
  then show ?case by simp
next
  case (Cons s scs)
  from Cons.prems(3) have "wf_scenario s" by simp
  from wf_scenario_row [OF this] obtain r where
    r: "scenario_row s = Inr r" "id_col r = text_of (scenario_id s)"
    and nn: "id_col r \<noteq> SNull" "category_col r \<noteq> SNull" "keywords_col r \<noteq> SNull"
      "context_col r \<noteq> SNull" "priority_col r \<noteq> SNull"
    by blast
  show ?case
  proof (cases "id_col r \<in> set (map (\<lambda>p. id_col (snd p)) (knowledge (working c)))")
    case True
    then show ?thesis
      unfolding insert_scenarios.simps insert_scenario_step [OF Cons.prems(1,2)]
      by (simp add: r(1) check_row_nonnull [OF nn])
  next
    case False
    define c1 where "c1 = c\<lparr>working := (working c)
                              \<lparr>knowledge := knowledge (working c) @
                                 [(next_rowid (knowledge (working c)), r)],
                               knowledge_fts := knowledge_fts (working c) @
                                 [(next_rowid (knowledge (working c)), fts_columns r)]\<rparr>,
                            in_transaction := True\<rparr>"
    have step: "insert_scenario s c = Inr c1"
      unfolding insert_scenario_step [OF Cons.prems(1,2)] c1_def
      using False by (simp add: r(1) check_row_nonnull [OF nn])
    from insert_scenario_Inr [OF Cons.prems(1,2) step]
    have inv1: "has_schema (working c1)" "fts_mirror (working c1)" by blast+
    have k1: "knowledge (working c1) = knowledge (working c) @ [(next_rowid (knowledge (working c)), r)]"
      by (simp add: c1_def)
    have com: "committed c1 = committed c" by (simp add: c1_def)
    have "\<not> (distinct (map (\<lambda>s. text_of (scenario_id s)) scs) \<and>
            (\<forall>s' \<in> set scs. text_of (scenario_id s') \<notin> (\<lambda>p. id_col (snd p)) ` set (knowledge (working c1))))"
      using Cons.prems(4) False r(2) by (auto simp: k1)
    moreover have "list_all wf_scenario scs" using Cons.prems(3) by simp
    ultimately have "insert_scenarios scs c1 =
        Inl (IntegrityError ''UNIQUE constraint failed: knowledge.id'', committed c1)"
      using Cons.IH [OF inv1] by blast
    then show ?thesis using step com by simp
  qed
qed

subsection \<open>Loading a valid directory\<close>

lemma tag_scenarios_objects:
  "list_all valid_scenario_object xs \<Longrightarrow>
     tag_scenarios category xs = (map (with_category category) xs, None)"
proof (induction xs)
  case Nil
  then show ?case by simp
next
  case (Cons x xs)
  then obtain d where "x = JObj d"
    by (cases x) (simp_all add: valid_scenario_object_def)
  with Cons show ?case by (simp add: with_category_def)
qed

lemma tag_scenarios_strings: "fst (tag_scenarios category (map (\<lambda>x. JStr (g x)) xs)) = []"
  by (cases xs) simp_all

lemma fst_load_file_valid:
  assumes "valid_file (snd entry)"
  shows "fst (load_file entry) =
           map (with_category (file_category (snd entry))) (scenario_objects (snd entry))"
proof (cases "snd entry")
  case Unreadable
  then show ?thesis by (simp add: load_file_def scenario_objects_def)
next
  case Malformed
  then show ?thesis by (simp add: load_file_def scenario_objects_def)
next
  case (Parsed v)
  show ?thesis
  proof (cases v)
    case (JObj data)
    have e: "entry = (fst entry, Parsed (JObj data))"
      using Parsed JObj by (cases entry) simp
    have cat: "file_category (snd entry) = dict_get data ''category'' (JStr ''unknown'')"
      using Parsed JObj by (simp add: file_category_def)
    show ?thesis
    proof (cases "dict_get data ''scenarios'' (JArr [])")
      case (JArr xs)
      have objs: "scenario_objects (snd entry) = xs"
        using Parsed JObj JArr by (simp add: scenario_objects_def)
      with assms have "list_all valid_scenario_object xs" by (simp add: valid_file_def)
      then show ?thesis
        by (subst e) (simp add: fst_load_file_object JArr tag_scenarios_objects objs cat)
    next
      case (JObj d')
      then show ?thesis using Parsed \<open>v = JObj data\<close>
        by (subst e) (simp add: fst_load_file_object scenario_objects_def tag_scenarios_strings)
    next
      case (JStr s)
      then show ?thesis using Parsed JObj
        by (subst e) (simp add: fst_load_file_object scenario_objects_def tag_scenarios_strings)
    next
      case JNull
      then show ?thesis using Parsed JObj
        by (subst e) (simp add: fst_load_file_object scenario_objects_def)
    next
      case (JBool b)
      then show ?thesis using Parsed JObj
        by (subst e) (simp add: fst_load_file_object scenario_objects_def)
    next
      case (JInt k)
      then show ?thesis using Parsed JObj
        by (subst e) (simp add: fst_load_file_object scenario_objects_def)
    qed
  qed (use Parsed in \<open>simp_all add: load_file_def scenario_objects_def\<close>)
qed

lemma field_is_str_dict_set:
  "k \<noteq> k' \<Longrightarrow> field_is_str (dict_set k' v d) k = field_is_str d k"
  "k \<noteq> k' \<Longrightarrow> field_is_strs (dict_set k' v d) k = field_is_strs d k"
  by (simp_all add: field_is_str_def field_is_strs_def map_of_dict_set)

lemma wf_with_category:
  assumes "valid_scenario_object s" and "is_str category"
  shows "wf_scenario (with_category category s)"
proof -
  from assms(1) obtain d where s: "s = JObj d"
    by (cases s) (simp_all add: valid_scenario_object_def)
  from assms(2) obtain c where c: "category = JStr c" by (cases category) simp_all
  have "field_is_str (dict_set ''category'' category d) ''category''"
    by (simp add: field_is_str_def map_of_dict_set c)
  with assms(1) show ?thesis
    by (simp add: wf_scenario_def valid_scenario_object_def with_category_def s
          field_is_str_dict_set)
qed

lemma scenario_id_with_category: "scenario_id (with_category category s) = scenario_id s"
  by (cases s) (simp_all add: scenario_id_def with_category_def dict_get_def map_of_dict_set)

lemma valid_scenario_object_id:
  "valid_scenario_object s \<Longrightarrow> \<exists>i. scenario_id s = JStr i"
  by (cases s) (auto simp: valid_scenario_object_def scenario_id_def dict_get_def elim: field_is_strE)

lemma loaded_valid:
  assumes "list_all (\<lambda>entry. valid_file (snd entry)) es"
  shows "list_all wf_scenario (concat (map (\<lambda>e. fst (load_file e)) es)) \<and>
         map scenario_id (concat (map (\<lambda>e. fst (load_file e)) es)) =
           map scenario_id (concat (map (\<lambda>entry. scenario_objects (snd entry)) es))"
  using assms
proof (induction es)
  case Nil
  then show ?case by simp
next
  case (Cons e es)
  then have v: "valid_file (snd e)" by simp
  have "list_all wf_scenario (fst (load_file e))"
    unfolding fst_load_file_valid [OF v] list_all_iff
  proof
    fix x assume "x \<in> set (map (with_category (file_category (snd e))) (scenario_objects (snd e)))"
    then obtain s where s: "s \<in> set (scenario_objects (snd e))"
      "x = with_category (file_category (snd e)) s" by auto
    then have "scenario_objects (snd e) \<noteq> []" by auto
    with v have "is_str (file_category (snd e))" "valid_scenario_object s"
      using s(1) by (auto simp: valid_file_def list_all_iff)
    then show "wf_scenario x" using s(2) by (simp add: wf_with_category)
  qed
  moreover have "map scenario_id (fst (load_file e)) = map scenario_id (scenario_objects (snd e))"
    by (simp add: fst_load_file_valid [OF v] scenario_id_with_category comp_def)
  ultimately show ?case using Cons by simp
qed

lemma distinct_text_of:
  assumes "distinct (map scenario_id xs)" and "\<forall>x \<in> set xs. \<exists>i. scenario_id x = JStr i"
  shows "distinct (map (\<lambda>s. text_of (scenario_id s)) xs)"
proof -
  have inj: "inj_on text_of (set (map scenario_id xs))"
  proof (rule inj_onI)
    fix a b assume a: "a \<in> set (map scenario_id xs)" and b: "b \<in> set (map scenario_id xs)"
      and eq: "text_of a = text_of b"
    from a assms(2) obtain i where "a = JStr i" by auto
    moreover from b assms(2) obtain j where "b = JStr j" by auto
    ultimately show "a = b" using eq by (simp add: text_of_def)
  qed
  have "distinct (map text_of (map scenario_id xs))"
    by (rule iffD2 [OF distinct_map, OF conjI [OF assms(1) inj]])
  then show ?thesis by (simp only: map_map comp_def)
qed

subsection \<open>What the build leaves\<close>

lemma create_database_Inr:
  assumes "create_database db_path scenarios = Inr f"
  shows "objects f = schema_objects @ [''metadata'']"
    and "fts_mirror f"
    and "metadata f = [(''model_name'', ''keyword-only''), (''embedding_dim'', ''0''),
                       (''version'', ''1.0-basic''),
                       (''total_scenarios'', str_nat (length scenarios))]"
    and "\<exists>rows. list_all2 (\<lambda>s r. scenario_row s = Inr r) scenarios rows \<and>
                 map snd (knowledge f) = rows"
proof -
  from assms obtain c where c: "insert_scenarios scenarios schema_conn = Inr c"
    and f: "f = (working c)
                 \<lparr>objects := schema_objects @ [''metadata''],
                  metadata := [(''model_name'', ''keyword-only''),
                               (''embedding_dim'', ''0''),
                               (''version'', ''1.0-basic''),
                               (''total_scenarios'', str_nat (length scenarios))]\<rparr>"
    by (auto simp: create_database_cases split: sum.splits)
  note loop = insert_scenarios_Inr [OF schema_conn_inv c]
  show "objects f = schema_objects @ [''metadata'']" by (simp add: f)
  show "fts_mirror f" using loop by (simp add: f fts_mirror_def)
  show "metadata f = [(''model_name'', ''keyword-only''), (''embedding_dim'', ''0''),
                       (''version'', ''1.0-basic''),
                       (''total_scenarios'', str_nat (length scenarios))]"
    by (simp add: f)
  show "\<exists>rows. list_all2 (\<lambda>s r. scenario_row s = Inr r) scenarios rows \<and>
                 map snd (knowledge f) = rows"
    using loop by (simp add: f schema_conn_def schema_db_def empty_db_def)
qed

lemma create_database_length:
  "create_database db_path scenarios = Inr f \<Longrightarrow> length (knowledge f) = length scenarios"
  using create_database_Inr(4) [of db_path scenarios f]
  by (metis length_map list_all2_lengthD)

lemma create_database_Inl:
  "create_database db_path scenarios = Inl (e, f) \<Longrightarrow> f = schema_db"
  using insert_scenarios_Inl [of scenarios schema_conn e f]
  by (auto simp: create_database_cases schema_conn_def split: sum.splits)

lemma verify_created:
  "create_database db_path scenarios = Inr f \<Longrightarrow> verify f = Inr (length (knowledge f), metadata f)"
  by (simp add: verify_def create_database_Inr(1) schema_objects_def)

lemma main_success:
  assumes "fst (load_knowledge_files dir) \<noteq> []"
    and "create_database output_db (fst (load_knowledge_files dir)) = Inr f"
  shows "main (Some dir) output_db = \<lparr>exit_code = 0, output_file = Some f\<rparr>"
  using assms by (simp add: main_def Let_def verify_created)

subsection \<open>Columns of a stored row\<close>

lemma scenario_row_keywords:
  assumes "scenario_row s = Inr r"
  shows "\<exists>kws joined. subscript s ''keywords'' = Inr kws \<and> str_join '', '' kws = Inr joined \<and>
           keywords_col r = SText joined \<and> embedding_col r = SNull"
  using assms
  by (auto simp: scenario_row_def scenario_values_def bind_params_def then_e_eq_Inr)

lemma scenario_row_category:
  assumes "scenario_row s = Inr r"
  shows "\<exists>c. subscript s ''category'' = Inr c \<and> bind_param c = Inr (category_col r)"
  using assms
  by (auto simp: scenario_row_def scenario_values_def bind_params_def then_e_eq_Inr)

subsection \<open>Insertions keep the mirror\<close>




subsection \<open>Defaults and the file of a loaded scenario\<close>

lemma dict_get_append_absent:
  "map_of d k = None \<Longrightarrow> dict_get (d @ [(k, v)]) k dflt = v"
  "k' \<noteq> k \<Longrightarrow> dict_get (d @ [(k, v)]) k' dflt = dict_get d k' dflt"
  by (simp_all add: dict_get_def map_add_def split: option.splits)

lemma loaded_from_file:
  assumes "s \<in> set (fst (load_knowledge_files dir))"
  shows "\<exists>name data. (name, Parsed (JObj data)) \<in> set (glob_json dir) \<and>
           s \<in> set (fst (load_file (name, Parsed (JObj data))))"
proof -
  from assms obtain entry where e: "entry \<in> set (glob_json dir)" "s \<in> set (fst (load_file entry))"
    by (auto simp: fst_load_knowledge_files)
  obtain name c where entry: "entry = (name, c)" by (cases entry)
  have "\<exists>data. c = Parsed (JObj data)"
  proof (rule ccontr)
    assume "\<not> (\<exists>data. c = Parsed (JObj data))"
    then have "fst (load_file (name, c)) = []" by (intro load_file_not_object) simp
    with e(2) entry show False by simp
  qed
  with e entry show ?thesis by auto
qed

subsection \<open>The examples, evaluated\<close>

lemma example_dir_valid: "valid_dir example_dir"
  by code_simp

lemma example_build:
  "create_database None (fst (load_knowledge_files example_dir)) = Inr example_db"
  by code_simp


lemma example_main:
  "main (Some example_dir) None = \<lparr>exit_code = 0, output_file = Some example_db\<rparr>"
  by code_simp


section \<open>The claims\<close>

text \<open>
  Claim C1. For a valid knowledge directory (every scenario object of every JSON file has the
  required fields, the category of a file with scenarios is a string, and the ids of all
  scenario objects are distinct) the build succeeds and \<^verbatim>\<open>knowledge\<close> has exactly as many rows as
  there are scenario objects in the JSON files; when there is at least one, \<^verbatim>\<open>main\<close> ends with
  status 0 and leaves that database.
\<close>

theorem row_count_equals_scenario_count:
  assumes "valid_dir dir"
  shows "\<exists>f. create_database db_path (fst (load_knowledge_files dir)) = Inr f \<and>
             length (knowledge f) = length (all_scenario_objects dir) \<and>
             (all_scenario_objects dir \<noteq> [] \<longrightarrow>
                main (Some dir) db_path = \<lparr>exit_code = 0, output_file = Some f\<rparr>)"
proof -
  let ?loaded = "fst (load_knowledge_files dir)"
  have loaded: "?loaded = concat (map (\<lambda>e. fst (load_file e)) (glob_json dir))"
    by (rule fst_load_knowledge_files)
  from assms have files: "list_all (\<lambda>entry. valid_file (snd entry)) (glob_json dir)"
    and ids: "distinct (map scenario_id (all_scenario_objects dir))"
    by (simp_all add: valid_dir_def)
  from loaded_valid [OF files] have wf: "list_all wf_scenario ?loaded"
    and same_ids: "map scenario_id ?loaded = map scenario_id (all_scenario_objects dir)"
    by (simp_all add: loaded all_scenario_objects_def)
  from same_ids have len: "length ?loaded = length (all_scenario_objects dir)"
    by (metis length_map)
  have "distinct (map scenario_id ?loaded)" using ids same_ids by simp
  moreover have "\<forall>s \<in> set ?loaded. \<exists>i. scenario_id s = JStr i"
  proof
    fix s assume "s \<in> set ?loaded"
    with wf have "valid_scenario_object s" by (simp add: list_all_iff wf_scenario_def)
    then show "\<exists>i. scenario_id s = JStr i" by (rule valid_scenario_object_id)
  qed
  ultimately have "distinct (map (\<lambda>s. text_of (scenario_id s)) ?loaded)"
    by (rule distinct_text_of)
  moreover have "\<forall>s \<in> set ?loaded. text_of (scenario_id s) \<notin>
                   (\<lambda>p. id_col (snd p)) ` set (knowledge (working schema_conn))"
    by (simp add: schema_conn_def schema_db_def empty_db_def)
  ultimately obtain c where c: "insert_scenarios ?loaded schema_conn = Inr c"
    using insert_scenarios_distinct [OF schema_conn_inv wf] by blast
  then obtain f where f: "create_database db_path ?loaded = Inr f"
    by (simp add: create_database_cases)
  then have "length (knowledge f) = length (all_scenario_objects dir)"
    by (simp add: create_database_length len)
  moreover have "main (Some dir) db_path = \<lparr>exit_code = 0, output_file = Some f\<rparr>"
    if "all_scenario_objects dir \<noteq> []"
  proof (rule main_success [OF _ f])
    from that len show "?loaded \<noteq> []" by auto
  qed
  ultimately show ?thesis using f by blast
qed

text \<open>The directory \<open>example_dir\<close> is valid and its two scenario objects give two rows.\<close>

theorem row_count_equals_scenario_count_witness:
  "valid_dir example_dir \<and>
   (\<exists>f. create_database None (fst (load_knowledge_files example_dir)) = Inr f \<and>
        length (knowledge f) = 2 \<and>
        main (Some example_dir) None = \<lparr>exit_code = 0, output_file = Some f\<rparr>)"
proof -
  have n: "length (all_scenario_objects example_dir) = 2" by code_simp
  then have "all_scenario_objects example_dir \<noteq> []" by auto
  with row_count_equals_scenario_count [OF example_dir_valid, of None] n example_dir_valid
  show ?thesis by auto
qed

text \<open>
  Claim C2. When two scenarios of a list of well-formed scenarios have the same id, the build
  raises the uniqueness violation of \<^verbatim>\<open>knowledge.id\<close>; the commit is not reached, so the file
  at the output path holds no row of \<^verbatim>\<open>knowledge\<close> and no row of \<^verbatim>\<open>metadata\<close>, and \<^verbatim>\<open>main\<close>
  ends with status 1. Whatever the scenarios are, a build that ends with an exception leaves
  no row of either table.
\<close>

theorem duplicate_id_aborts_uncommitted:
  assumes "list_all wf_scenario scenarios"
    and "i < j" and "j < length scenarios"
    and "scenario_id (scenarios ! i) = scenario_id (scenarios ! j)"
  shows "\<exists>f. create_database db_path scenarios =
               Inl (IntegrityError ''UNIQUE constraint failed: knowledge.id'', f) \<and>
             knowledge f = [] \<and> metadata f = [] \<and>
             (\<forall>dir. fst (load_knowledge_files dir) = scenarios \<longrightarrow>
                main (Some dir) db_path = \<lparr>exit_code = 1, output_file = Some f\<rparr>) \<and>
             (\<forall>e g. create_database db_path other = Inl (e, g) \<longrightarrow>
                knowledge g = [] \<and> metadata g = [])"
proof -
  have dup: "\<not> distinct (map scenario_id scenarios)"
  proof
    assume d: "distinct (map scenario_id scenarios)"
    have ij: "i < length (map scenario_id scenarios)" "j < length (map scenario_id scenarios)"
      "i \<noteq> j"
      using assms(2,3) by simp_all
    from d ij have "map scenario_id scenarios ! i \<noteq> map scenario_id scenarios ! j"
      unfolding distinct_conv_nth by blast
    then show False using assms(2,3,4) by simp
  qed
  have "\<not> distinct (map (\<lambda>s. text_of (scenario_id s)) scenarios)"
  proof
    assume "distinct (map (\<lambda>s. text_of (scenario_id s)) scenarios)"
    then have "distinct (map text_of (map scenario_id scenarios))"
      by (simp only: map_map comp_def)
    then have "distinct (map scenario_id scenarios)"
      using distinct_map by blast
    with dup show False by contradiction
  qed
  then have loop: "insert_scenarios scenarios schema_conn =
      Inl (IntegrityError ''UNIQUE constraint failed: knowledge.id'', committed schema_conn)"
    using insert_scenarios_duplicate [OF schema_conn_inv assms(1)] by blast
  have c: "committed schema_conn = schema_db" by (simp add: schema_conn_def)
  have build: "create_database db_path scenarios =
      Inl (IntegrityError ''UNIQUE constraint failed: knowledge.id'', schema_db)"
    by (simp add: create_database_cases loop c)
  have "scenarios \<noteq> []" using assms(3) by auto
  then have "\<forall>dir. fst (load_knowledge_files dir) = scenarios \<longrightarrow>
                main (Some dir) db_path = \<lparr>exit_code = 1, output_file = Some schema_db\<rparr>"
    by (simp add: main_def Let_def build)
  moreover have empty: "knowledge schema_db = []" "metadata schema_db = []"
    by (simp_all add: schema_db_def empty_db_def)
  moreover have "\<forall>e g. create_database db_path other = Inl (e, g) \<longrightarrow>
                   knowledge g = [] \<and> metadata g = []"
    using create_database_Inl [of db_path other] empty by blast
  ultimately show ?thesis using build by blast
qed

text \<open>In \<open>duplicate_dir\<close> the scenario \<^verbatim>\<open>fire-01\<close> appears in two files.\<close>

theorem duplicate_id_aborts_uncommitted_witness:
  "list_all wf_scenario (fst (load_knowledge_files duplicate_dir)) \<and>
   scenario_id (fst (load_knowledge_files duplicate_dir) ! 0) =
     scenario_id (fst (load_knowledge_files duplicate_dir) ! 2) \<and>
   (\<exists>f. create_database None (fst (load_knowledge_files duplicate_dir)) =
           Inl (IntegrityError ''UNIQUE constraint failed: knowledge.id'', f) \<and>
        knowledge f = [] \<and> metadata f = [] \<and>
        main (Some duplicate_dir) None = \<lparr>exit_code = 1, output_file = Some f\<rparr>)"
proof -
  let ?scs = "fst (load_knowledge_files duplicate_dir)"
  have wf: "list_all wf_scenario ?scs" by code_simp
  have len: "2 < length ?scs" by code_simp
  have same: "scenario_id (?scs ! 0) = scenario_id (?scs ! 2)" by code_simp
  have lt: "(0::nat) < 2" by simp
  from duplicate_id_aborts_uncommitted [OF wf lt len same, of None] wf same
  show ?thesis by blast
qed




text \<open>
  Claim C4. A file that exists at the output path is deleted before the build, so the build
  gives the same result as with no file there; a run of \<^verbatim>\<open>main\<close> that succeeds on a directory
  gives the same database when it is run again over an existing output file.
\<close>

theorem regeneration_replaces_existing_file:
  "create_database (Some existing) scenarios = create_database None scenarios \<and>
   (main (Some dir) None = \<lparr>exit_code = 0, output_file = Some f\<rparr> \<longrightarrow>
      main (Some dir) (Some existing) = \<lparr>exit_code = 0, output_file = Some f\<rparr>)"
proof -
  have same: "create_database (Some existing) scs = create_database None scs" for scs
    by (simp add: create_database_schema)
  show ?thesis
    by (simp add: same main_def Let_def split: sum.splits prod.splits)
qed

text \<open>Running \<^verbatim>\<open>main\<close> on \<open>example_dir\<close> over an older database gives \<open>example_db\<close> again.\<close>

theorem regeneration_replaces_existing_file_witness:
  "main (Some example_dir) None = \<lparr>exit_code = 0, output_file = Some example_db\<rparr> \<and>
   main (Some example_dir) (Some after_statements) =
     \<lparr>exit_code = 0, output_file = Some example_db\<rparr> \<and>
   create_database (Some after_statements) (fst (load_knowledge_files example_dir)) =
     create_database None (fst (load_knowledge_files example_dir))"
  using regeneration_replaces_existing_file
          [of after_statements "fst (load_knowledge_files example_dir)" example_dir example_db]
    example_main
  by simp

text \<open>
  Claim C5. When the knowledge directory is missing, when no scenario was loaded, and in
  particular when the directory has no JSON file, \<^verbatim>\<open>main\<close> ends with status 1 and what is at
  the output path is left as it was (no database is created there). When scenarios were
  loaded and the build succeeds, \<^verbatim>\<open>main\<close> ends with status 0.
\<close>

theorem exit_status:
  "main None output_db = \<lparr>exit_code = 1, output_file = output_db\<rparr> \<and>
   (fst (load_knowledge_files dir) = [] \<longrightarrow>
      main (Some dir) output_db = \<lparr>exit_code = 1, output_file = output_db\<rparr>) \<and>
   (glob_json dir = [] \<longrightarrow>
      main (Some dir) output_db = \<lparr>exit_code = 1, output_file = output_db\<rparr>) \<and>
   (fst (load_knowledge_files dir) \<noteq> [] \<longrightarrow>
    create_database output_db (fst (load_knowledge_files dir)) = Inr f \<longrightarrow>
      main (Some dir) output_db = \<lparr>exit_code = 0, output_file = Some f\<rparr>)"
proof -
  have "main None output_db = \<lparr>exit_code = 1, output_file = output_db\<rparr>"
    by (simp add: main_def)
  moreover have none: "main (Some dir) output_db = \<lparr>exit_code = 1, output_file = output_db\<rparr>"
    if "fst (load_knowledge_files dir) = []"
    using that by (simp add: main_def Let_def)
  moreover have "fst (load_knowledge_files dir) = []" if "glob_json dir = []"
    using that by (simp add: load_knowledge_files_def)
  ultimately show ?thesis using main_success by blast
qed

text \<open>A directory without JSON files, a directory whose only JSON file is malformed, a missing
  directory, and \<open>example_dir\<close>.\<close>

theorem exit_status_witness:
  "glob_json [(''notes.txt'', Unreadable)] = [] \<and>
   main (Some [(''notes.txt'', Unreadable)]) None = \<lparr>exit_code = 1, output_file = None\<rparr> \<and>
   fst (load_knowledge_files [(''broken.json'', Malformed)]) = [] \<and>
   main (Some [(''broken.json'', Malformed)]) (Some example_db) =
     \<lparr>exit_code = 1, output_file = Some example_db\<rparr> \<and>
   main None (Some example_db) = \<lparr>exit_code = 1, output_file = Some example_db\<rparr> \<and>
   fst (load_knowledge_files example_dir) \<noteq> [] \<and>
   main (Some example_dir) None = \<lparr>exit_code = 0, output_file = Some example_db\<rparr>"
proof -
  have g: "glob_json [(''notes.txt'', Unreadable)] = []" by code_simp
  have l: "fst (load_knowledge_files [(''broken.json'', Malformed)]) = []" by code_simp
  have n: "fst (load_knowledge_files example_dir) \<noteq> []" by code_simp
  from exit_status [of None "[(''notes.txt'', Unreadable)]" example_db] g
  have 1: "main (Some [(''notes.txt'', Unreadable)]) None = \<lparr>exit_code = 1, output_file = None\<rparr>"
    by blast
  from exit_status [of "Some example_db" "[(''broken.json'', Malformed)]" example_db] l
  have 2: "main (Some [(''broken.json'', Malformed)]) (Some example_db) =
             \<lparr>exit_code = 1, output_file = Some example_db\<rparr>"
    and 3: "main None (Some example_db) = \<lparr>exit_code = 1, output_file = Some example_db\<rparr>"
    by blast+
  from exit_status [of None example_dir example_db] n example_build
  have 4: "main (Some example_dir) None = \<lparr>exit_code = 0, output_file = Some example_db\<rparr>"
    by blast
  from g l n 1 2 3 4 show ?thesis by simp
qed

text \<open>
  Claim C6. After a successful build the row of every scenario holds NULL as \<^verbatim>\<open>embedding\<close>
  and, as \<^verbatim>\<open>keywords\<close>, what \<^verbatim>\<open>', '.join\<close> makes of the scenario's keywords. For a list of
  strings that is the empty text when the list is empty, and otherwise the first string
  followed by each further string with a comma and a space before it.
\<close>

theorem keywords_joined_embedding_null:
  assumes "create_database db_path scenarios = Inr f" and "i < length scenarios"
  shows "length (knowledge f) = length scenarios \<and>
         embedding_col (snd (knowledge f ! i)) = SNull \<and>
         (\<exists>kws joined. subscript (scenarios ! i) ''keywords'' = Inr kws \<and>
            str_join '', '' kws = Inr joined \<and>
            keywords_col (snd (knowledge f ! i)) = SText joined) \<and>
         (\<forall>d ks. scenarios ! i = JObj d \<longrightarrow>
            map_of d ''keywords'' = Some (JArr (map JStr ks)) \<longrightarrow>
            keywords_col (snd (knowledge f ! i)) =
              SText (case ks of [] \<Rightarrow> [] | k # rest \<Rightarrow> k @ concat (map (\<lambda>x. '', '' @ x) rest)))"
proof -
  from create_database_Inr(4) [OF assms(1)] obtain rows where
    rows: "list_all2 (\<lambda>s r. scenario_row s = Inr r) scenarios rows" "map snd (knowledge f) = rows"
    by blast
  have len: "length (knowledge f) = length scenarios"
    using assms(1) by (rule create_database_length)
  have "scenario_row (scenarios ! i) = Inr (rows ! i)"
    using rows(1) assms(2) by (rule list_all2_nthD)
  moreover have "rows ! i = snd (knowledge f ! i)"
    using rows(2) assms(2) len by (metis nth_map)
  ultimately have "scenario_row (scenarios ! i) = Inr (snd (knowledge f ! i))" by simp
  from scenario_row_keywords [OF this] obtain kws joined where
    k: "subscript (scenarios ! i) ''keywords'' = Inr kws" "str_join '', '' kws = Inr joined"
      "keywords_col (snd (knowledge f ! i)) = SText joined"
      "embedding_col (snd (knowledge f ! i)) = SNull"
    by blast
  have "keywords_col (snd (knowledge f ! i)) =
          SText (case ks of [] \<Rightarrow> [] | k # rest \<Rightarrow> k @ concat (map (\<lambda>x. '', '' @ x) rest))"
    if "scenarios ! i = JObj d" and "map_of d ''keywords'' = Some (JArr (map JStr ks))" for d ks
  proof -
    from that k(1) have "kws = JArr (map JStr ks)" by (simp add: subscript_def)
    with k(2) have "joined = join '', '' ks" by (simp add: str_join_list)
    with k(3) show ?thesis by (simp only: join_comma)
  qed
  with k len show ?thesis by blast
qed

text \<open>Scenarios with no keyword, one keyword and three keywords.\<close>

theorem keywords_joined_embedding_null_witness:
  "\<exists>f. create_database None keyword_examples = Inr f \<and>
        map (\<lambda>p. keywords_col (snd p)) (knowledge f) =
          [SText '''', SText ''water'', SText ''smoke, flame, heat''] \<and>
        map (\<lambda>p. embedding_col (snd p)) (knowledge f) = [SNull, SNull, SNull]"
proof -
  have "\<not> isl (create_database None keyword_examples)" by code_simp
  then obtain f where f: "create_database None keyword_examples = Inr f"
    by (cases "create_database None keyword_examples") simp_all
  have len: "length keyword_examples = 3" by (simp add: keyword_examples_def)
  note k = keywords_joined_embedding_null [OF f]
  have k0: "keywords_col (snd (knowledge f ! 0)) = SText ''''"
    "embedding_col (snd (knowledge f ! 0)) = SNull"
    using k [of 0] k [of 0, THEN conjunct2, THEN conjunct2, THEN conjunct2, rule_format,
      of "[(''id'', JStr ''k0''), (''category'', JStr ''c''), (''keywords'', JArr []),
            (''context'', JStr ''x''), (''priority'', JStr ''p'')]" "[]"]
    by (simp_all add: keyword_examples_def)
  have k1: "keywords_col (snd (knowledge f ! 1)) = SText ''water''"
    "embedding_col (snd (knowledge f ! 1)) = SNull"
    using k [of 1] k [of 1, THEN conjunct2, THEN conjunct2, THEN conjunct2, rule_format,
      of "[(''id'', JStr ''k1''), (''category'', JStr ''c''), (''keywords'', JArr [JStr ''water'']),
            (''context'', JStr ''x''), (''priority'', JStr ''p'')]" "[''water'']"]
    by (simp_all add: keyword_examples_def)
  have k2: "keywords_col (snd (knowledge f ! 2)) = SText ''smoke, flame, heat''"
    "embedding_col (snd (knowledge f ! 2)) = SNull"
    using k [of 2] k [of 2, THEN conjunct2, THEN conjunct2, THEN conjunct2, rule_format,
      of "[(''id'', JStr ''k3''), (''category'', JStr ''c''),
            (''keywords'', JArr [JStr ''smoke'', JStr ''flame'', JStr ''heat'']),
            (''context'', JStr ''x''), (''priority'', JStr ''p'')]" "[''smoke'', ''flame'', ''heat'']"]
    by (simp_all add: keyword_examples_def)
  have n: "length (knowledge f) = 3" using k [of 0] len by simp
  then obtain a b c where abc: "knowledge f = [a, b, c]"
    by (auto simp: length_Suc_conv numeral_3_eq_3)
  with k0 k1 k2 f show ?thesis by (intro exI [of _ f]) simp
qed

text \<open>
  Claim C7. A file whose object has no \<^verbatim>\<open>category\<close> key is loaded exactly as if the key were
  there with the value \<^verbatim>\<open>unknown\<close>, and every scenario loaded from it has that category; a file
  whose object has no \<^verbatim>\<open>scenarios\<close> key gives no scenario and prints no error line.
\<close>

theorem missing_keys_take_defaults:
  "(map_of data ''category'' = None \<longrightarrow>
      load_file (name, Parsed (JObj data)) =
        load_file (name, Parsed (JObj (data @ [(''category'', JStr ''unknown'')]))) \<and>
      (\<forall>s \<in> set (fst (load_file (name, Parsed (JObj data)))).
          subscript s ''category'' = Inr (JStr ''unknown''))) \<and>
   (map_of data ''scenarios'' = None \<longrightarrow>
      load_file (name, Parsed (JObj data)) =
        ([], [Loading name, Loaded 0 (dict_get data ''category'' (JStr ''unknown''))]))"
proof -
  have a: "load_file (name, Parsed (JObj data)) =
             load_file (name, Parsed (JObj (data @ [(''category'', JStr ''unknown'')])))"
    if "map_of data ''category'' = None"
  proof -
    have "dict_get data ''category'' (JStr ''unknown'') = JStr ''unknown''"
      using that by (simp add: dict_get_def)
    then show ?thesis
      using that by (simp add: load_file_def dict_get_append_absent Let_def split: sum.splits prod.splits option.splits)
  qed
  have b: "subscript s ''category'' = Inr (JStr ''unknown'')"
    if "map_of data ''category'' = None" and "s \<in> set (fst (load_file (name, Parsed (JObj data))))"
    for s
  proof -
    from load_file_category [OF that(2)] obtain d where
      "s = JObj d" "map_of d ''category'' = Some (dict_get data ''category'' (JStr ''unknown''))"
      by blast
    then show ?thesis using that(1) by (simp add: subscript_def dict_get_def)
  qed
  have c: "load_file (name, Parsed (JObj data)) =
             ([], [Loading name, Loaded 0 (dict_get data ''category'' (JStr ''unknown''))])"
    if "map_of data ''scenarios'' = None"
  proof -
    have "dict_get data ''scenarios'' (JArr []) = JArr []"
      using that by (simp add: dict_get_def)
    then show ?thesis by (simp add: load_file_def)
  qed
  from a b c show ?thesis by blast
qed

text \<open>A file without \<^verbatim>\<open>category\<close> and a file without \<^verbatim>\<open>scenarios\<close>.\<close>

theorem missing_keys_take_defaults_witness:
  "map_of [(''scenarios'', JArr [flood_01])] ''category'' = None \<and>
   fst (load_file (''flood.json'', Parsed (JObj [(''scenarios'', JArr [flood_01])]))) \<noteq> [] \<and>
   subscript (hd (fst (load_file (''flood.json'', Parsed (JObj [(''scenarios'', JArr [flood_01])])))))
     ''category'' = Inr (JStr ''unknown'') \<and>
   map_of [(''category'', JStr ''fire'')] ''scenarios'' = None \<and>
   load_file (''empty.json'', Parsed (JObj [(''category'', JStr ''fire'')])) =
     ([], [Loading ''empty.json'', Loaded 0 (JStr ''fire'')])"
proof -
  let ?data = "[(''scenarios'', JArr [flood_01])]"
  have c: "map_of ?data ''category'' = None" by simp
  have ne: "fst (load_file (''flood.json'', Parsed (JObj ?data))) \<noteq> []" by code_simp
  then have "hd (fst (load_file (''flood.json'', Parsed (JObj ?data)))) \<in>
               set (fst (load_file (''flood.json'', Parsed (JObj ?data))))"
    by (rule hd_in_set)
  with missing_keys_take_defaults [of ?data "''flood.json''"] c
  have 1: "subscript (hd (fst (load_file (''flood.json'', Parsed (JObj ?data))))) ''category'' =
             Inr (JStr ''unknown'')"
    by blast
  have s: "map_of [(''category'', JStr ''fire'')] ''scenarios'' = None" by simp
  with missing_keys_take_defaults [of "[(''category'', JStr ''fire'')]" "''empty.json''"]
  have 2: "load_file (''empty.json'', Parsed (JObj [(''category'', JStr ''fire'')])) =
             ([], [Loading ''empty.json'', Loaded 0 (JStr ''fire'')])"
    by (simp add: dict_get_def)
  from c ne 1 s 2 show ?thesis by blast
qed

text \<open>
  Claim C8. A file whose read or parse fails adds no scenario: the loader returns the scenarios
  of the files before it followed by those of the files after it, the same as without the
  file. When \<^verbatim>\<open>glob\<close> returns the file, the loader prints its error line between the lines of
  the files before it and the lines of the files after it.
\<close>

theorem failed_file_is_skipped:
  assumes "contents = Unreadable \<or> contents = Malformed"
  shows "fst (load_knowledge_files (before @ (name, contents) # after)) =
           fst (load_knowledge_files before) @ fst (load_knowledge_files after) \<and>
         fst (load_knowledge_files (before @ (name, contents) # after)) =
           fst (load_knowledge_files (before @ after)) \<and>
         (is_json_name name \<longrightarrow>
            snd (load_knowledge_files (before @ (name, contents) # after)) =
              snd (load_loop (glob_json before)) @ [Loading name, Error_loading name] @
              snd (load_loop (glob_json after)))"
proof -
  have skip: "fst (load_file (name, contents)) = []"
    using load_file_failed [OF assms] by simp
  have g: "glob_json (before @ (name, contents) # after) =
             glob_json before @ glob_json [(name, contents)] @ glob_json after"
    by (simp add: glob_json_def)
  have one: "concat (map (\<lambda>e. fst (load_file e)) (glob_json [(name, contents)])) = []"
    using skip by (simp add: glob_json_def)
  have "fst (load_knowledge_files (before @ (name, contents) # after)) =
          fst (load_knowledge_files before) @ fst (load_knowledge_files after)"
    by (simp add: fst_load_knowledge_files g one)
  moreover have "fst (load_knowledge_files (before @ after)) =
          fst (load_knowledge_files before) @ fst (load_knowledge_files after)"
    by (simp add: fst_load_knowledge_files glob_json_append)
  moreover have "snd (load_knowledge_files (before @ (name, contents) # after)) =
              snd (load_loop (glob_json before)) @ [Loading name, Error_loading name] @
              snd (load_loop (glob_json after))"
    if "is_json_name name"
  proof -
    have g': "glob_json (before @ (name, contents) # after) =
               glob_json before @ (name, contents) # glob_json after"
      using that by (simp add: glob_json_def)
    have "load_loop ((name, contents) # glob_json after) =
            (fst (load_loop (glob_json after)),
             [Loading name, Error_loading name] @ snd (load_loop (glob_json after)))"
      by (simp add: load_file_failed [OF assms] split: prod.splits)
    then show ?thesis
      by (simp add: load_knowledge_files_def g' load_loop_append)
  qed
  ultimately show ?thesis by simp
qed

text \<open>The malformed \<^verbatim>\<open>broken.json\<close> of \<open>example_dir\<close>.\<close>

theorem failed_file_is_skipped_witness:
  "fst (load_knowledge_files example_dir) =
     fst (load_knowledge_files (take 1 example_dir)) @ fst (load_knowledge_files (drop 2 example_dir)) \<and>
   fst (load_knowledge_files example_dir) =
     fst (load_knowledge_files (take 1 example_dir @ drop 2 example_dir)) \<and>
   length (fst (load_knowledge_files example_dir)) = 2 \<and>
   snd (load_knowledge_files example_dir) =
     [Loading ''fire.json'', Loaded 1 (JStr ''fire''),
      Loading ''broken.json'', Error_loading ''broken.json'',
      Loading ''flood.json'', Loaded 1 (JStr ''unknown'')]"
proof -
  have split: "example_dir = take 1 example_dir @ (''broken.json'', Malformed) # drop 2 example_dir"
    by (simp add: example_dir_def)
  have m: "(Malformed :: file_contents) = Unreadable \<or> (Malformed :: file_contents) = Malformed"
    by simp
  have j: "is_json_name ''broken.json''" by code_simp
  have b: "snd (load_loop (glob_json (take 1 example_dir))) =
             [Loading ''fire.json'', Loaded 1 (JStr ''fire'')]"
    by code_simp
  have a: "snd (load_loop (glob_json (drop 2 example_dir))) =
             [Loading ''flood.json'', Loaded 1 (JStr ''unknown'')]"
    by code_simp
  have n: "length (fst (load_knowledge_files example_dir)) = 2" by code_simp
  from failed_file_is_skipped [OF m, of "take 1 example_dir" "''broken.json''" "drop 2 example_dir"]
    j
  have "fst (load_knowledge_files (take 1 example_dir @ (''broken.json'', Malformed) # drop 2 example_dir)) =
          fst (load_knowledge_files (take 1 example_dir)) @ fst (load_knowledge_files (drop 2 example_dir))"
    and "fst (load_knowledge_files (take 1 example_dir @ (''broken.json'', Malformed) # drop 2 example_dir)) =
          fst (load_knowledge_files (take 1 example_dir @ drop 2 example_dir))"
    and "snd (load_knowledge_files (take 1 example_dir @ (''broken.json'', Malformed) # drop 2 example_dir)) =
          snd (load_loop (glob_json (take 1 example_dir))) @
          [Loading ''broken.json'', Error_loading ''broken.json''] @
          snd (load_loop (glob_json (drop 2 example_dir)))"
    by blast+
  then show ?thesis
    unfolding split [symmetric] a b using n by simp
qed

text \<open>
  Claim C9. After a successful build \<^verbatim>\<open>metadata\<close> holds exactly the four pairs
  \<^verbatim>\<open>model_name = keyword-only\<close>, \<^verbatim>\<open>embedding_dim = 0\<close>, \<^verbatim>\<open>version = 1.0-basic\<close> and
  \<^verbatim>\<open>total_scenarios\<close>. The value of \<^verbatim>\<open>total_scenarios\<close> is the decimal text of the number of rows
  of \<^verbatim>\<open>knowledge\<close>, which is the number of scenarios: it is not empty, its characters are the
  digits 0 to 9, it starts with 0 only when it is the text 0, and read as a decimal number it
  gives the number of rows.
\<close>

theorem metadata_after_build:
  assumes "create_database db_path scenarios = Inr f"
  shows "\<exists>total. metadata f =
           [(''model_name'', ''keyword-only''), (''embedding_dim'', ''0''),
            (''version'', ''1.0-basic''), (''total_scenarios'', total)] \<and>
         total = str_nat (length scenarios) \<and>
         length (knowledge f) = length scenarios \<and>
         foldl (\<lambda>a c. 10 * a + (of_char c - 48)) 0 total = length (knowledge f) \<and>
         (\<forall>c \<in> set total. 48 \<le> (of_char c :: nat) \<and> (of_char c :: nat) \<le> 57) \<and>
         total \<noteq> [] \<and> (hd total = CHR ''0'' \<longrightarrow> total = ''0'')"
proof (intro exI [of _ "str_nat (length scenarios)"] conjI)
  show "metadata f =
           [(''model_name'', ''keyword-only''), (''embedding_dim'', ''0''),
            (''version'', ''1.0-basic''), (''total_scenarios'', str_nat (length scenarios))]"
    using assms by (rule create_database_Inr(3))
  show "length (knowledge f) = length scenarios"
    using assms by (rule create_database_length)
  then show "foldl (\<lambda>a c. 10 * a + (of_char c - 48)) 0 (str_nat (length scenarios)) =
          length (knowledge f)"
    by (simp add: str_nat_value)
  show "\<forall>c \<in> set (str_nat (length scenarios)). 48 \<le> (of_char c :: nat) \<and> (of_char c :: nat) \<le> 57"
    using str_nat_digits by blast
  show "str_nat (length scenarios) \<noteq> []" by (rule str_nat_nonempty)
  show "hd (str_nat (length scenarios)) = CHR ''0'' \<longrightarrow> str_nat (length scenarios) = ''0''"
    using str_nat_leading_zero by blast
qed simp

text \<open>The build of \<open>example_dir\<close> writes \<^verbatim>\<open>total_scenarios = 2\<close> beside its two rows, and a build of
  twelve scenarios writes \<^verbatim>\<open>total_scenarios = 12\<close>.\<close>

theorem metadata_after_build_witness:
  "create_database None (fst (load_knowledge_files example_dir)) = Inr example_db \<and>
   metadata example_db =
     [(''model_name'', ''keyword-only''), (''embedding_dim'', ''0''),
      (''version'', ''1.0-basic''), (''total_scenarios'', ''2'')] \<and>
   length (knowledge example_db) = 2 \<and>
   (\<exists>f. create_database None (map numbered [0..<12]) = Inr f \<and>
        map_of (metadata f) ''total_scenarios'' = Some ''12'' \<and>
        length (knowledge f) = 12)"
proof -
  have n: "length (fst (load_knowledge_files example_dir)) = 2" by code_simp
  have two: "str_nat 2 = ''2''" by code_simp
  from metadata_after_build [OF example_build] n two
  have a: "metadata example_db =
     [(''model_name'', ''keyword-only''), (''embedding_dim'', ''0''),
      (''version'', ''1.0-basic''), (''total_scenarios'', ''2'')]"
    and b: "length (knowledge example_db) = 2"
    by auto
  have "\<not> isl (create_database None (map numbered [0..<12]))" by code_simp
  then obtain f where f: "create_database None (map numbered [0..<12]) = Inr f"
    by (cases "create_database None (map numbered [0..<12])") simp_all
  have twelve: "str_nat 12 = ''12''" by code_simp
  from metadata_after_build [OF f] twelve
  have "map_of (metadata f) ''total_scenarios'' = Some ''12'' \<and> length (knowledge f) = 12"
    by auto
  with f a b example_build show ?thesis by blast
qed

text \<open>
  Claim C10. Every scenario loaded from a file has the category of the file (\<^verbatim>\<open>unknown\<close> when
  the file has none), whatever category the scenario carried in the JSON; and after a
  successful build the category of every row of \<^verbatim>\<open>knowledge\<close> is the stored form of the
  category of one of the files.
\<close>

theorem file_category_overrides_scenario_category:
  "(s \<in> set (fst (load_file (name, Parsed (JObj data)))) \<longrightarrow>
      subscript s ''category'' = Inr (dict_get data ''category'' (JStr ''unknown''))) \<and>
   (create_database db_path (fst (load_knowledge_files dir)) = Inr f \<longrightarrow>
    row \<in> set (knowledge f) \<longrightarrow>
      (\<exists>name data. (name, Parsed (JObj data)) \<in> set (glob_json dir) \<and>
         bind_param (dict_get data ''category'' (JStr ''unknown'')) = Inr (category_col (snd row))))"
proof -
  have first: "subscript s ''category'' = Inr (dict_get data ''category'' (JStr ''unknown''))"
    if "s \<in> set (fst (load_file (name, Parsed (JObj data))))" for s name data
    using load_file_category [OF that] by (auto simp: subscript_def)
  have second: "\<exists>name data. (name, Parsed (JObj data)) \<in> set (glob_json dir) \<and>
         bind_param (dict_get data ''category'' (JStr ''unknown'')) = Inr (category_col (snd row))"
    if built: "create_database db_path (fst (load_knowledge_files dir)) = Inr f"
      and row: "row \<in> set (knowledge f)"
  proof -
    let ?loaded = "fst (load_knowledge_files dir)"
    from create_database_Inr(4) [OF built] have
      rows: "list_all2 (\<lambda>s r. scenario_row s = Inr r) ?loaded (map snd (knowledge f))"
      by simp
    from row obtain i where i: "i < length (knowledge f)" "knowledge f ! i = row"
      by (auto simp: in_set_conv_nth)
    have len: "length ?loaded = length (knowledge f)"
      using rows by (auto dest: list_all2_lengthD)
    have "scenario_row (?loaded ! i) = Inr (map snd (knowledge f) ! i)"
      using list_all2_nthD [OF rows, of i] i(1) len by simp
    then have sr: "scenario_row (?loaded ! i) = Inr (snd row)" using i by simp
    from scenario_row_category [OF sr] obtain c where
      c: "subscript (?loaded ! i) ''category'' = Inr c" "bind_param c = Inr (category_col (snd row))"
      by blast
    have "?loaded ! i \<in> set ?loaded" using i(1) len by simp
    from loaded_from_file [OF this] obtain name data where
      nd: "(name, Parsed (JObj data)) \<in> set (glob_json dir)"
        "?loaded ! i \<in> set (fst (load_file (name, Parsed (JObj data))))"
      by blast
    from first [OF nd(2)] c(1) have "c = dict_get data ''category'' (JStr ''unknown'')" by simp
    with c(2) nd(1) show ?thesis by blast
  qed
  from first second show ?thesis by blast
qed

text \<open>The scenario \<^verbatim>\<open>fire-01\<close> carries the category \<^verbatim>\<open>own\<close> and is stored with \<^verbatim>\<open>fire\<close>.\<close>

theorem file_category_overrides_scenario_category_witness:
  "subscript fire_01 ''category'' = Inr (JStr ''own'') \<and>
   fst (load_knowledge_files example_dir) ! 0 \<in>
     set (fst (load_file (''fire.json'',
       Parsed (JObj [(''category'', JStr ''fire''), (''scenarios'', JArr [fire_01])])))) \<and>
   subscript (fst (load_knowledge_files example_dir) ! 0) ''category'' = Inr (JStr ''fire'') \<and>
   create_database None (fst (load_knowledge_files example_dir)) = Inr example_db \<and>
   knowledge example_db ! 0 \<in> set (knowledge example_db) \<and>
   (\<exists>name data. (name, Parsed (JObj data)) \<in> set (glob_json example_dir) \<and>
      bind_param (dict_get data ''category'' (JStr ''unknown'')) =
        Inr (category_col (snd (knowledge example_db ! 0))))"
proof -
  let ?data = "[(''category'', JStr ''fire''), (''scenarios'', JArr [fire_01])]"
  let ?s = "fst (load_knowledge_files example_dir) ! 0"
  have own: "subscript fire_01 ''category'' = Inr (JStr ''own'')" by code_simp
  have mem: "?s \<in> set (fst (load_file (''fire.json'', Parsed (JObj ?data))))" by code_simp
  have row: "knowledge example_db ! 0 \<in> set (knowledge example_db)" by code_simp
  have cat: "dict_get ?data ''category'' (JStr ''unknown'') = JStr ''fire''" by code_simp
  note inst = file_category_overrides_scenario_category
               [of ?s "''fire.json''" ?data None example_dir example_db "knowledge example_db ! 0"]
  from inst mem cat have 1: "subscript ?s ''category'' = Inr (JStr ''fire'')" by simp
  from inst example_build row
  have 2: "\<exists>name data. (name, Parsed (JObj data)) \<in> set (glob_json example_dir) \<and>
      bind_param (dict_get data ''category'' (JStr ''unknown'')) =
        Inr (category_col (snd (knowledge example_db ! 0)))"
    by blast
  from own mem 1 example_build row 2 show ?thesis by blast
qed

end
